theory Spec2Isabelle
  imports Main "HOL-Library.Word" "HOL-Library.Signed_Division"
begin

unbundle bit_operations_syntax

section \<open>The value domain\<close>

text \<open>
  The interpreter engine (Engine.cpp, Engine.h) and the external-adapter relation
  (LLMQueryRelationWrapper.h) are embedded here. \<open>RamDomain\<close> is the machine word of
  the engine. The adapter bit-casts 64-bit database ids into \<open>RamDomain\<close>, which the
  size check of \<open>ramBitCast\<close> only admits for the 64-bit domain, so the word is 64 bits
  wide. A word is read as signed with \<open>sint\<close> and as unsigned with \<open>uint\<close>/\<open>unat\<close>;
  \<open>ramBitCast\<close> between the two integer readings is the identity on the bits.
\<close>

type_synonym RamDomain = "64 word"
type_synonym Tuple = "RamDomain list"

text \<open>\<open>RAM_DOMAIN_SIZE\<close> is the width of the domain in bits, and \<open>RAM_BIT_SHIFT_MASK\<close>
  is \<open>RAM_DOMAIN_SIZE - 1\<close> as a value of the domain. Both are stated for a word of any
  width, so that the shift operators can also be read at the 32-bit domain.\<close>

definition RAM_DOMAIN_SIZE :: "'a::len word itself \<Rightarrow> nat" where
  "RAM_DOMAIN_SIZE w = LENGTH('a)"

definition RAM_BIT_SHIFT_MASK :: "'a::len word" where
  "RAM_BIT_SHIFT_MASK = of_nat (RAM_DOMAIN_SIZE TYPE('a word) - 1)"

text \<open>
  Modelled from the spec: the limits of the signed and unsigned reading of the domain
  (RamTypes.h is not among the sources): the minimum and maximum of \<open>Signed\<close> and of
  \<open>Unsigned\<close>.
\<close>

definition MIN_RAM_SIGNED :: RamDomain where
  "MIN_RAM_SIGNED = word_of_int (- (2 ^ 63))"

definition MAX_RAM_SIGNED :: RamDomain where
  "MAX_RAM_SIGNED = word_of_int (2 ^ 63 - 1)"

definition MIN_RAM_UNSIGNED :: RamDomain where
  "MIN_RAM_UNSIGNED = 0"

definition MAX_RAM_UNSIGNED :: RamDomain where
  "MAX_RAM_UNSIGNED = - 1"

text \<open>
  Outcomes that are not a returned value: \<open>Fatal\<close> is a call of \<open>fatal\<close>, a failed
  \<open>assert\<close> or an exception nobody catches (the process ends with the message);
  \<open>UndefinedBehaviour\<close> is an operation for which C++ defines no result (integer
  division by zero, a read through a null or dangling pointer, an index outside an array);
  \<open>OutOfFuel\<close> is the bound on the recursion depth of the model, the value of a run
  that has not returned within the bound.
\<close>

datatype error = Fatal string | UndefinedBehaviour | OutOfFuel

definition bindR :: "error + 'a \<Rightarrow> ('a \<Rightarrow> error + 'b) \<Rightarrow> error + 'b" where
  "bindR m f = (case m of Inl e \<Rightarrow> Inl e | Inr v \<Rightarrow> f v)"

text \<open>A C++ \<open>bool\<close> converted to \<open>RamDomain\<close> is 0 or 1; a \<open>RamDomain\<close> used as a
  condition is true when it is not 0.\<close>

definition fromBool :: "bool \<Rightarrow> RamDomain" where
  "fromBool b = (if b then 1 else 0)"

definition toBool :: "RamDomain \<Rightarrow> bool" where
  "toBool d = (d \<noteq> 0)"

subsection \<open>The arithmetic of the intrinsic operators\<close>

text \<open>
  \<open>BINARY_OP_TYPED(ty, op)\<close> applies the C++ operator to the two operands read at type
  \<open>ty\<close>. Addition, subtraction and multiplication wrap around in both readings. The
  integer \<open>/\<close> and \<open>%\<close> are applied with no test of the divisor: C++ defines no result for
  a zero divisor, nor for the signed quotient of the minimum by \<open>-1\<close>; otherwise the
  quotient is truncated towards zero.
\<close>

definition signedDiv :: "RamDomain \<Rightarrow> RamDomain \<Rightarrow> error + RamDomain" where
  "signedDiv a b =
     (if b = 0 \<or> (a = MIN_RAM_SIGNED \<and> b = - 1) then Inl UndefinedBehaviour
      else Inr (word_of_int (sint a sdiv sint b)))"

definition unsignedDiv :: "RamDomain \<Rightarrow> RamDomain \<Rightarrow> error + RamDomain" where
  "unsignedDiv a b =
     (if b = 0 then Inl UndefinedBehaviour else Inr (a div b))"

definition signedMod :: "RamDomain \<Rightarrow> RamDomain \<Rightarrow> error + RamDomain" where
  "signedMod a b =
     (if b = 0 \<or> (a = MIN_RAM_SIGNED \<and> b = - 1) then Inl UndefinedBehaviour
      else Inr (word_of_int (sint a smod sint b)))"

definition unsignedMod :: "RamDomain \<Rightarrow> RamDomain \<Rightarrow> error + RamDomain" where
  "unsignedMod a b =
     (if b = 0 then Inl UndefinedBehaviour else Inr (a mod b))"

text \<open>
  \<open>BINARY_OP_SHIFT_MASK(ty, op)\<close>: the left operand is shifted by the right operand
  \<open>&\<close> \<open>RAM_BIT_SHIFT_MASK\<close>. The left shift of a \<open>RamUnsigned\<close> is \<open>push_bit\<close>, the
  right shift of a \<open>RamUnsigned\<close> is \<open>drop_bit\<close>, and the right shift of a \<open>RamSigned\<close>
  extends the sign (\<open>signed_drop_bit\<close>).
\<close>

definition BINARY_OP_SHIFT_MASK ::
  "(nat \<Rightarrow> 'a::len word \<Rightarrow> 'a word) \<Rightarrow> 'a word \<Rightarrow> 'a word \<Rightarrow> 'a word" where
  "BINARY_OP_SHIFT_MASK op a b = op (unat (b AND RAM_BIT_SHIFT_MASK)) a"

definition signedLess :: "RamDomain \<Rightarrow> RamDomain \<Rightarrow> bool" where
  "signedLess a b = (sint a < sint b)"

definition signedLessEq :: "RamDomain \<Rightarrow> RamDomain \<Rightarrow> bool" where
  "signedLessEq a b = (sint a \<le> sint b)"

text \<open>\<open>std::min\<close> and \<open>std::max\<close> return their first argument unless the second is
  strictly smaller (greater).\<close>

definition std_min :: "('a \<Rightarrow> 'a \<Rightarrow> bool) \<Rightarrow> 'a \<Rightarrow> 'a \<Rightarrow> 'a" where
  "std_min lt a b = (if lt b a then b else a)"

definition std_max :: "('a \<Rightarrow> 'a \<Rightarrow> bool) \<Rightarrow> 'a \<Rightarrow> 'a \<Rightarrow> 'a" where
  "std_max lt a b = (if lt a b then b else a)"

subsection \<open>Strings and the symbol table\<close>

text \<open>
  Modelled from the spec: the symbol table (SymbolTableImpl.h is not among the sources)
  interns strings: \<open>encode\<close> maps a string to its \<open>Domain\<close>, stable within a run, and
  \<open>decode\<close> maps it back. The table is the list of the interned strings, a symbol is the
  position of its string. Decoding a value that is no symbol has no defined result.
\<close>

definition decode :: "string list \<Rightarrow> RamDomain \<Rightarrow> error + string" where
  "decode tbl i = (if unat i < length tbl then Inr (tbl ! unat i) else Inl UndefinedBehaviour)"

definition encode :: "string list \<Rightarrow> string \<Rightarrow> RamDomain \<times> string list" where
  "encode tbl s =
     (if s \<in> set tbl then (of_nat (length (takeWhile (\<lambda>x. x \<noteq> s) tbl)), tbl)
      else (of_nat (length tbl), tbl @ [s]))"

text \<open>Printing an integer on a stream, in base 10.\<close>

fun digits :: "nat \<Rightarrow> string" where
  "digits n = (if n < 10 then [''0123456789'' ! n] else digits (n div 10) @ [''0123456789'' ! (n mod 10)])"

definition showInt :: "int \<Rightarrow> string" where
  "showInt i = (if i < 0 then CHR ''-'' # digits (nat (- i)) else digits (nat i))"

text \<open>\<open>(int32_t)x\<close>: the low 32 bits, read as signed.\<close>

definition int32_t :: "RamDomain \<Rightarrow> int" where
  "int32_t x = sint (ucast x :: 32 word)"

text \<open>
  \<open>std::string::substr(pos, count)\<close>, with both arguments converted to \<open>size_t\<close>: it
  throws \<open>std::out_of_range\<close> when \<open>pos\<close> is greater than the size of the string, and
  otherwise returns the characters from \<open>pos\<close> on, \<open>count\<close> of them or as many as are left.
\<close>

definition substr :: "string \<Rightarrow> RamDomain \<Rightarrow> RamDomain \<Rightarrow> string option" where
  "substr str idx len =
     (if unat idx > length str then None
      else Some (take (unat len) (drop (unat idx) str)))"

section \<open>The data model\<close>

subsection \<open>Relations\<close>

text \<open>
  \<open>LLMQueryRelationWrapper\<close>: the adapter holds a standard B-tree relation and the flag
  \<open>dataLoaded\<close>. The contents of a relation are the list of its tuples.
\<close>

record LLMQueryRelationWrapper =
  internalRelation :: "Tuple list"
  dataLoaded :: bool

text \<open>
  A \<open>RelationWrapper\<close> is either a standard relation (\<open>Relation<Arity, AuxiliaryArity,
  Structure>\<close>) or the adapter; both carry the name given at construction.
\<close>

datatype RelationWrapper =
    Relation (getName: string) (contents: "Tuple list")
  | LLMQueryRelation (getName: string) (adapter: LLMQueryRelationWrapper)

text \<open>
  The database the adapter reads (\<open>coref_java_src.db\<close>): the three tables it queries, each
  as the map from the queried column to \<open>element_hash_id\<close> of the first matching row.
\<close>

record Database =
  class_table :: "string \<Rightarrow> RamDomain option"
  method_table :: "string \<Rightarrow> RamDomain option"
  constructor_table :: "string \<Rightarrow> RamDomain option"

text \<open>
  The collaborators of the engine whose code is not among the sources are parameters of the
  model: the operations of a standard relation and of the views on its indexes
  (Relation.h, Index.h), the arithmetic of \<open>RamFloat\<close> on the bits of a \<open>RamDomain\<close>, and
  the database of the adapter (\<open>None\<close> when opening it throws).
\<close>

record Host =
  rel_empty :: "Tuple list \<Rightarrow> bool"
  rel_size :: "Tuple list \<Rightarrow> nat"
  rel_insert :: "Tuple \<Rightarrow> Tuple list \<Rightarrow> Tuple list"
  rel_contains :: "Tuple list \<Rightarrow> Tuple \<Rightarrow> bool"
  rel_purge :: "Tuple list \<Rightarrow> Tuple list"
  rel_scan :: "Tuple list \<Rightarrow> Tuple list"
  rel_printStats :: "Tuple list \<Rightarrow> string"
  rel_getIndexOrder :: "Tuple list \<Rightarrow> nat \<Rightarrow> nat list"
  view_contains :: "Tuple list \<Rightarrow> nat \<Rightarrow> Tuple \<Rightarrow> bool"
  view_contains_bounds :: "Tuple list \<Rightarrow> nat \<Rightarrow> Tuple \<Rightarrow> Tuple \<Rightarrow> bool"
  view_range :: "Tuple list \<Rightarrow> nat \<Rightarrow> Tuple \<Rightarrow> Tuple \<Rightarrow> Tuple list"
  MAX_RAM_FLOAT :: RamDomain
  MIN_RAM_FLOAT :: RamDomain
  float_one :: RamDomain
  float_add :: "RamDomain \<Rightarrow> RamDomain \<Rightarrow> RamDomain"
  float_div :: "RamDomain \<Rightarrow> RamDomain \<Rightarrow> RamDomain"
  float_less :: "RamDomain \<Rightarrow> RamDomain \<Rightarrow> bool"
  float_is_zero :: "RamDomain \<Rightarrow> bool"
  database :: "Database option"

subsection \<open>Shadow nodes\<close>

text \<open>
  The operators of \<open>IntrinsicOperator\<close>: the integer, logical, bitwise, shift and string
  operators. The float operators, the conversions from and to strings, the symbol
  minimum and maximum, the logical exclusive or (whose helper is in EvaluatorUtil.h) and the
  range generators are outside the embedded fragment.
  \<open>MAX_op\<close> and \<open>MIN_op\<close> are \<open>FunctorOp::MAX\<close> and \<open>FunctorOp::MIN\<close>.
\<close>

datatype FunctorOp =
    ORD | STRLEN | NEG | BNOT | UBNOT | LNOT | ULNOT
  | I2I | U2U | S2S | I2U | U2I
  | ADD | UADD | SUB | USUB | MUL | UMUL | DIV | UDIV
  | MOD | UMOD | BAND | UBAND | BOR | UBOR | BXOR | UBXOR
  | BSHIFT_L | UBSHIFT_L | BSHIFT_R | UBSHIFT_R | BSHIFT_R_UNSIGNED | UBSHIFT_R_UNSIGNED
  | LAND | ULAND | LOR | ULOR
  | MAX_op | UMAX | MIN_op | UMIN
  | CAT | SUBSTR | SSADD

datatype BinaryConstraintOp =
    EQ | NE | LT | ULT | LE | ULE | GT | UGT | GE | UGE

datatype AggregateOp =
    AggMIN | AggUMIN | AggFMIN | AggMAX | AggUMAX | AggFMAX
  | AggSUM | AggUSUM | AggFSUM | AggMEAN | AggCOUNT

text \<open>\<open>ram::Aggregator\<close>: intrinsic, or user-defined with its \<open>isStateful\<close> flag.\<close>

datatype Aggregator =
    IntrinsicAggregator AggregateOp
  | UserDefinedAggregator bool

text \<open>
  A user-defined stateful aggregate functor receives the symbol table and the two
  arguments \<open>(acc, val)\<close> and returns the new accumulator.
\<close>

type_synonym UserFunctor = "string list \<Rightarrow> RamDomain \<Rightarrow> RamDomain \<Rightarrow> RamDomain \<times> string list"

text \<open>
  \<open>SuperInstruction\<close>: the prepared search-bound templates of a shadow node. \<open>first\<close> and
  \<open>second\<close> hold the constants and the unbounded columns of the low and the high bound,
  \<open>tupleFirst\<close>/\<open>tupleSecond\<close> the columns read from the context as
  \<open>(column, tupleId, element)\<close>, \<open>exprFirst\<close>/\<open>exprSecond\<close> the columns computed by an
  expression.
\<close>

datatype 'n SuperInstruction = SuperInstruction
  (first: Tuple) (second: Tuple)
  (tupleFirst: "(nat \<times> nat \<times> nat) list") (tupleSecond: "(nat \<times> nat \<times> nat) list")
  (exprFirst: "(nat \<times> 'n) list") (exprSecond: "(nat \<times> 'n) list")

text \<open>The fields of the shadow of \<open>Aggregate\<close> and \<open>IndexAggregate\<close> that
  \<open>evalAggregate\<close> and \<open>initValue\<close> read.\<close>

datatype 'n AggregateShadow = AggregateShadow
  (getAggregator: Aggregator) (getTupleId: nat)
  (getCondition: 'n) (getExpr: "'n option") (getNestedOperation: 'n)
  (getInit: "'n option") (getFunctionPointer: "UserFunctor option")

text \<open>
  The shadow nodes of the embedded fragment. A relation operation carries the arity of its
  relation type and the position of its relation handle in the engine; an index operation
  carries its view slot.
  \<^item> \<open>EmptinessCheck relation\<close>
  \<^item> \<open>ExistenceCheck arity viewId isTemp relationName isTotalSearch superInst\<close>
  \<^item> \<open>ProvenanceExistenceCheck arity viewId superInst child\<close>
  \<^item> \<open>Aggregate relation shadow\<close>, \<open>IndexAggregate arity viewId superInst shadow\<close>
  \<^item> \<open>Filter profileText condition nestedOperation\<close>
  \<^item> \<open>Insert arity relation superInst\<close>
\<close>

datatype Node =
    NumericConstant RamDomain
  | StringConstant RamDomain
  | TupleElement nat nat
  | AutoIncrement
  | IntrinsicOperator FunctorOp "Node list"
  | True_Node
  | False_Node
  | Conjunction "Node list"
  | Negation Node
  | Constraint BinaryConstraintOp Node Node
  | EmptinessCheck nat
  | ExistenceCheck nat nat bool string bool "Node SuperInstruction"
  | ProvenanceExistenceCheck nat nat "Node SuperInstruction" Node
  | Aggregate nat "Node AggregateShadow"
  | IndexAggregate nat nat "Node SuperInstruction" "Node AggregateShadow"
  | Filter string Node Node
  | Insert nat nat "Node SuperInstruction"
  | Sequence "Node list"
  | Parallel "Node list"
  | Loop Node
  | Exit Node
  | Clear nat

subsection \<open>Engine and context\<close>

text \<open>
  The fields of \<open>Engine\<close> that the embedded fragment reads or writes, and \<open>cerr\<close>, the
  text written to the diagnostic channel so far.
\<close>

record Engine =
  iteration :: "64 word"
  counter :: RamDomain
  relations :: "RelationWrapper list"
  relToIdMap :: "string \<Rightarrow> nat option"
  symbolTable :: "string list"
  profileEnabled :: bool
  frequencyCounterEnabled :: bool
  reads :: "string \<Rightarrow> 64 word"
  frequencies :: "string \<Rightarrow> 64 word list"
  cerr :: string

text \<open>
  \<open>Context\<close>: the current tuple of each tuple id, and the views, each the relation handle
  and the index position it was created from.
\<close>

record Context =
  data :: "nat \<Rightarrow> Tuple option"
  views :: "(nat \<times> nat) list"

type_synonym State = "Engine \<times> Context"
type_synonym Result = "error + RamDomain \<times> Engine \<times> Context"
type_synonym Exec = "Node \<Rightarrow> Engine \<times> Context \<Rightarrow> error + RamDomain \<times> Engine \<times> Context"

section \<open>The evaluator\<close>

subsection \<open>Access to the context and to the relations\<close>

text \<open>\<open>ctxt[tupleId][element]\<close>: a tuple id never bound is a null pointer, an element
  beyond the tuple is outside its array.\<close>

definition readTupleElement :: "Context \<Rightarrow> nat \<Rightarrow> nat \<Rightarrow> error + RamDomain" where
  "readTupleElement ctxt tupleId element =
     (case data ctxt tupleId of
        None \<Rightarrow> Inl UndefinedBehaviour
      | Some t \<Rightarrow> if element < length t then Inr (t ! element) else Inl UndefinedBehaviour)"

text \<open>\<open>ctxt[tupleId] = tuple.data()\<close>\<close>

definition bindTuple :: "nat \<Rightarrow> Tuple \<Rightarrow> Context \<Rightarrow> Context" where
  "bindTuple tupleId t ctxt = ctxt\<lparr>data := (data ctxt)(tupleId \<mapsto> t)\<rparr>"

definition getView :: "Context \<Rightarrow> nat \<Rightarrow> error + nat \<times> nat" where
  "getView ctxt viewPos =
     (if viewPos < length (views ctxt) then Inr (views ctxt ! viewPos)
      else Inl UndefinedBehaviour)"

definition getRelationHandle :: "Engine \<Rightarrow> nat \<Rightarrow> error + RelationWrapper" where
  "getRelationHandle eng idx =
     (if idx < length (relations eng) then Inr (relations eng ! idx)
      else Inl UndefinedBehaviour)"

text \<open>The tuples a view ranges over: those of the relation it was created from (for the
  adapter, of its internal relation).\<close>

definition viewTuples :: "Engine \<Rightarrow> nat \<times> nat \<Rightarrow> error + Tuple list" where
  "viewTuples eng view =
     bindR (getRelationHandle eng (fst view)) (\<lambda>r.
       Inr (case r of Relation name c \<Rightarrow> c | LLMQueryRelation name w \<Rightarrow> internalRelation w))"

text \<open>\<open>t[col] = v\<close> on a tuple of fixed arity.\<close>

definition storeColumn :: "Tuple \<Rightarrow> nat \<Rightarrow> RamDomain \<Rightarrow> error + Tuple" where
  "storeColumn t col v =
     (if col < length t then Inr (t[col := v]) else Inl UndefinedBehaviour)"

text \<open>\<open>TUPLE_COPY_FROM(dst, src)\<close> for a destination of the arity of the relation type;
  the \<open>assert\<close> is taken as checked.\<close>

definition TUPLE_COPY_FROM :: "nat \<Rightarrow> Tuple \<Rightarrow> error + Tuple" where
  "TUPLE_COPY_FROM arity src =
     (if length src = arity then Inr src else Inl (Fatal ''assert(dst.size() == src.size())''))"

subsection \<open>Building search tuples from a super-instruction\<close>

text \<open>The loop over \<open>tupleFirst\<close> (or \<open>tupleSecond\<close>) that fills one tuple.\<close>

primrec setTupleElements :: "(nat \<times> nat \<times> nat) list \<Rightarrow> Context \<Rightarrow> Tuple \<Rightarrow> error + Tuple" where
  "setTupleElements [] ctxt t = Inr t"
| "setTupleElements (tupleElement # rest) ctxt t =
     bindR (readTupleElement ctxt (fst (snd tupleElement)) (snd (snd tupleElement))) (\<lambda>v.
     bindR (storeColumn t (fst tupleElement) v) (\<lambda>t'.
     setTupleElements rest ctxt t'))"

text \<open>The loop over \<open>exprFirst\<close> (or \<open>exprSecond\<close>) that fills one tuple.\<close>

primrec setExprs :: "(nat \<times> Node) list \<Rightarrow> Exec \<Rightarrow> Tuple \<Rightarrow> State \<Rightarrow> error + Tuple \<times> State" where
  "setExprs [] ex t st = Inr (t, st)"
| "setExprs (expr # rest) ex t st =
     bindR (ex (snd expr) st) (\<lambda>(v, st1).
     bindR (storeColumn t (fst expr) v) (\<lambda>t'.
     setExprs rest ex t' st1))"

text \<open>The loops of the existence checks, which write the low bound and copy the written
  column to the high bound: \<open>low[c] = ...; high[c] = low[c]\<close>.\<close>

primrec setTupleElementsBoth ::
  "(nat \<times> nat \<times> nat) list \<Rightarrow> Context \<Rightarrow> Tuple \<times> Tuple \<Rightarrow> error + Tuple \<times> Tuple" where
  "setTupleElementsBoth [] ctxt lh = Inr lh"
| "setTupleElementsBoth (tupleElement # rest) ctxt lh =
     bindR (readTupleElement ctxt (fst (snd tupleElement)) (snd (snd tupleElement))) (\<lambda>v.
     bindR (storeColumn (fst lh) (fst tupleElement) v) (\<lambda>low.
     bindR (storeColumn (snd lh) (fst tupleElement) (low ! fst tupleElement)) (\<lambda>high.
     setTupleElementsBoth rest ctxt (low, high))))"

primrec setExprsBoth ::
  "(nat \<times> Node) list \<Rightarrow> Exec \<Rightarrow> Tuple \<times> Tuple \<Rightarrow> State \<Rightarrow> error + (Tuple \<times> Tuple) \<times> State" where
  "setExprsBoth [] ex lh st = Inr (lh, st)"
| "setExprsBoth (expr # rest) ex lh st =
     bindR (ex (snd expr) st) (\<lambda>(v, st1).
     bindR (storeColumn (fst lh) (fst expr) v) (\<lambda>low.
     bindR (storeColumn (snd lh) (fst expr) (low ! fst expr)) (\<lambda>high.
     setExprsBoth rest ex (low, high) st1)))"

definition CAL_SEARCH_BOUND ::
  "Exec \<Rightarrow> nat \<Rightarrow> Node SuperInstruction \<Rightarrow> State \<Rightarrow> error + (Tuple \<times> Tuple) \<times> State" where
  "CAL_SEARCH_BOUND ex arity superInfo st =
     bindR (TUPLE_COPY_FROM arity (first superInfo)) (\<lambda>low.
     bindR (TUPLE_COPY_FROM arity (second superInfo)) (\<lambda>high.
     bindR (setTupleElements (tupleFirst superInfo) (snd st) low) (\<lambda>low.
     bindR (setTupleElements (tupleSecond superInfo) (snd st) high) (\<lambda>high.
     bindR (setExprs (exprFirst superInfo) ex low st) (\<lambda>(low, st1).
     bindR (setExprs (exprSecond superInfo) ex high st1) (\<lambda>(high, st2).
     Inr ((low, high), st2)))))))"

subsection \<open>Intrinsic operators\<close>

text \<open>
  \<open>shadow.getChild(i)\<close> and \<open>EVAL_CHILD(ty, i)\<close>. C++ leaves the order in which the two
  operands of a binary operator are evaluated unspecified; the model evaluates child 0
  first.
\<close>

definition getChild :: "Node list \<Rightarrow> nat \<Rightarrow> error + Node" where
  "getChild children i =
     (if i < length children then Inr (children ! i) else Inl UndefinedBehaviour)"

definition EVAL_CHILD :: "Exec \<Rightarrow> Node list \<Rightarrow> nat \<Rightarrow> State \<Rightarrow> Result" where
  "EVAL_CHILD ex children i st = bindR (getChild children i) (\<lambda>child. ex child st)"

definition UNARY_OP :: "(RamDomain \<Rightarrow> RamDomain) \<Rightarrow> Exec \<Rightarrow> Node list \<Rightarrow> State \<Rightarrow> Result" where
  "UNARY_OP func ex children st =
     bindR (EVAL_CHILD ex children 0 st) (\<lambda>(x, st1). Inr (func x, st1))"

definition BINARY_OP_TYPED ::
  "(RamDomain \<Rightarrow> RamDomain \<Rightarrow> error + RamDomain) \<Rightarrow> Exec \<Rightarrow> Node list \<Rightarrow> State \<Rightarrow> Result" where
  "BINARY_OP_TYPED op ex children st =
     bindR (EVAL_CHILD ex children 0 st) (\<lambda>(a, st1).
     bindR (EVAL_CHILD ex children 1 st1) (\<lambda>(b, st2).
     bindR (op a b) (\<lambda>r. Inr (r, st2))))"

text \<open>\<open>&&\<close> and \<open>||\<close> evaluate their right operand only when the left one does not
  decide the result.\<close>

definition BINARY_OP_LAND :: "Exec \<Rightarrow> Node list \<Rightarrow> State \<Rightarrow> Result" where
  "BINARY_OP_LAND ex children st =
     bindR (EVAL_CHILD ex children 0 st) (\<lambda>(a, st1).
     if \<not> toBool a then Inr (fromBool False, st1)
     else bindR (EVAL_CHILD ex children 1 st1) (\<lambda>(b, st2). Inr (fromBool (toBool b), st2)))"

definition BINARY_OP_LOR :: "Exec \<Rightarrow> Node list \<Rightarrow> State \<Rightarrow> Result" where
  "BINARY_OP_LOR ex children st =
     bindR (EVAL_CHILD ex children 0 st) (\<lambda>(a, st1).
     if toBool a then Inr (fromBool True, st1)
     else bindR (EVAL_CHILD ex children 1 st1) (\<lambda>(b, st2). Inr (fromBool (toBool b), st2)))"

primrec MINMAX_loop ::
  "Node list \<Rightarrow> (RamDomain \<Rightarrow> RamDomain \<Rightarrow> RamDomain) \<Rightarrow> Exec \<Rightarrow> RamDomain \<Rightarrow> State \<Rightarrow> Result" where
  "MINMAX_loop [] op ex result st = Inr (result, st)"
| "MINMAX_loop (child # rest) op ex result st =
     bindR (ex child st) (\<lambda>(v, st1). MINMAX_loop rest op ex (op result v) st1)"

definition MINMAX_OP ::
  "(RamDomain \<Rightarrow> RamDomain \<Rightarrow> RamDomain) \<Rightarrow> Exec \<Rightarrow> Node list \<Rightarrow> State \<Rightarrow> Result" where
  "MINMAX_OP op ex children st =
     bindR (EVAL_CHILD ex children 0 st) (\<lambda>(result, st1).
     MINMAX_loop (tl children) op ex result st1)"

primrec CAT_loop :: "Node list \<Rightarrow> Exec \<Rightarrow> string \<Rightarrow> State \<Rightarrow> error + string \<times> State" where
  "CAT_loop [] ex ss st = Inr (ss, st)"
| "CAT_loop (child # rest) ex ss st =
     bindR (ex child st) (\<lambda>(v, st1).
     bindR (decode (symbolTable (fst st1)) v) (\<lambda>s.
     CAT_loop rest ex (ss @ s) st1))"

text \<open>\<open>return getSymbolTable().encode(str)\<close>\<close>

definition returnEncoded :: "string \<Rightarrow> State \<Rightarrow> Result" where
  "returnEncoded str st =
     Inr (fst (encode (symbolTable (fst st)) str),
          (fst st)\<lparr>symbolTable := snd (encode (symbolTable (fst st)) str)\<rparr>, snd st)"

definition substrWarning :: "string \<Rightarrow> RamDomain \<Rightarrow> RamDomain \<Rightarrow> string" where
  "substrWarning str idx len =
     ''warning: wrong index position provided by substr(\"'' @ str @ ''\",''
       @ showInt (int32_t idx) @ '','' @ showInt (int32_t len) @ '') functor.'' @ [CHR 0x0A]"

definition evalSUBSTR :: "Exec \<Rightarrow> Node list \<Rightarrow> State \<Rightarrow> Result" where
  "evalSUBSTR ex children st =
     bindR (EVAL_CHILD ex children 0 st) (\<lambda>(symbol, st1).
     bindR (decode (symbolTable (fst st1)) symbol) (\<lambda>str.
     bindR (EVAL_CHILD ex children 1 st1) (\<lambda>(idx, st2).
     bindR (EVAL_CHILD ex children 2 st2) (\<lambda>(len, st3).
     (case substr str idx len of
        Some sub_str \<Rightarrow> returnEncoded sub_str st3
      | None \<Rightarrow>
          returnEncoded []
            ((fst st3)\<lparr>cerr := cerr (fst st3) @ substrWarning str idx len\<rparr>, snd st3))))))"

definition evalSSADD :: "Exec \<Rightarrow> Node list \<Rightarrow> State \<Rightarrow> Result" where
  "evalSSADD ex children st =
     bindR (EVAL_CHILD ex children 0 st) (\<lambda>(sleft, st1).
     bindR (EVAL_CHILD ex children 1 st1) (\<lambda>(sright, st2).
     bindR (decode (symbolTable (fst st2)) sleft) (\<lambda>strleft.
     bindR (decode (symbolTable (fst st2)) sright) (\<lambda>strright.
     returnEncoded (strleft @ strright) st2))))"

definition evalSTRLEN :: "Exec \<Rightarrow> Node list \<Rightarrow> State \<Rightarrow> Result" where
  "evalSTRLEN ex children st =
     bindR (EVAL_CHILD ex children 0 st) (\<lambda>(symbol, st1).
     bindR (decode (symbolTable (fst st1)) symbol) (\<lambda>str.
     Inr (of_nat (length str), st1)))"

definition total :: "(RamDomain \<Rightarrow> RamDomain \<Rightarrow> RamDomain) \<Rightarrow> RamDomain \<Rightarrow> RamDomain \<Rightarrow> error + RamDomain" where
  "total f a b = Inr (f a b)"

text \<open>The \<open>switch (cur.getOperator())\<close> of the case \<open>IntrinsicOperator\<close>.\<close>

definition execIntrinsic :: "Exec \<Rightarrow> FunctorOp \<Rightarrow> Node list \<Rightarrow> State \<Rightarrow> Result" where
  "execIntrinsic ex op children st =
     (case op of
        ORD \<Rightarrow> EVAL_CHILD ex children 0 st
      | STRLEN \<Rightarrow> evalSTRLEN ex children st
      | NEG \<Rightarrow> UNARY_OP (\<lambda>x. - x) ex children st
      | BNOT \<Rightarrow> UNARY_OP (\<lambda>x. NOT x) ex children st
      | UBNOT \<Rightarrow> UNARY_OP (\<lambda>x. NOT x) ex children st
      | LNOT \<Rightarrow> UNARY_OP (\<lambda>x. fromBool (\<not> toBool x)) ex children st
      | ULNOT \<Rightarrow> UNARY_OP (\<lambda>x. fromBool (\<not> toBool x)) ex children st
      | I2I \<Rightarrow> EVAL_CHILD ex children 0 st
      | U2U \<Rightarrow> EVAL_CHILD ex children 0 st
      | S2S \<Rightarrow> EVAL_CHILD ex children 0 st
      | I2U \<Rightarrow> UNARY_OP (\<lambda>x. x) ex children st
      | U2I \<Rightarrow> UNARY_OP (\<lambda>x. x) ex children st
      | ADD \<Rightarrow> BINARY_OP_TYPED (total (+)) ex children st
      | UADD \<Rightarrow> BINARY_OP_TYPED (total (+)) ex children st
      | SUB \<Rightarrow> BINARY_OP_TYPED (total (-)) ex children st
      | USUB \<Rightarrow> BINARY_OP_TYPED (total (-)) ex children st
      | MUL \<Rightarrow> BINARY_OP_TYPED (total (*)) ex children st
      | UMUL \<Rightarrow> BINARY_OP_TYPED (total (*)) ex children st
      | DIV \<Rightarrow> BINARY_OP_TYPED signedDiv ex children st
      | UDIV \<Rightarrow> BINARY_OP_TYPED unsignedDiv ex children st
      | MOD \<Rightarrow> BINARY_OP_TYPED signedMod ex children st
      | UMOD \<Rightarrow> BINARY_OP_TYPED unsignedMod ex children st
      | BAND \<Rightarrow> BINARY_OP_TYPED (total (AND)) ex children st
      | UBAND \<Rightarrow> BINARY_OP_TYPED (total (AND)) ex children st
      | BOR \<Rightarrow> BINARY_OP_TYPED (total (OR)) ex children st
      | UBOR \<Rightarrow> BINARY_OP_TYPED (total (OR)) ex children st
      | BXOR \<Rightarrow> BINARY_OP_TYPED (total (XOR)) ex children st
      | UBXOR \<Rightarrow> BINARY_OP_TYPED (total (XOR)) ex children st
      | BSHIFT_L \<Rightarrow> BINARY_OP_TYPED (total (BINARY_OP_SHIFT_MASK push_bit)) ex children st
      | UBSHIFT_L \<Rightarrow> BINARY_OP_TYPED (total (BINARY_OP_SHIFT_MASK push_bit)) ex children st
      | BSHIFT_R \<Rightarrow> BINARY_OP_TYPED (total (BINARY_OP_SHIFT_MASK signed_drop_bit)) ex children st
      | UBSHIFT_R \<Rightarrow> BINARY_OP_TYPED (total (BINARY_OP_SHIFT_MASK drop_bit)) ex children st
      | BSHIFT_R_UNSIGNED \<Rightarrow> BINARY_OP_TYPED (total (BINARY_OP_SHIFT_MASK drop_bit)) ex children st
      | UBSHIFT_R_UNSIGNED \<Rightarrow> BINARY_OP_TYPED (total (BINARY_OP_SHIFT_MASK drop_bit)) ex children st
      | LAND \<Rightarrow> BINARY_OP_LAND ex children st
      | ULAND \<Rightarrow> BINARY_OP_LAND ex children st
      | LOR \<Rightarrow> BINARY_OP_LOR ex children st
      | ULOR \<Rightarrow> BINARY_OP_LOR ex children st
      | MAX_op \<Rightarrow> MINMAX_OP (std_max signedLess) ex children st
      | UMAX \<Rightarrow> MINMAX_OP (std_max (<)) ex children st
      | MIN_op \<Rightarrow> MINMAX_OP (std_min signedLess) ex children st
      | UMIN \<Rightarrow> MINMAX_OP (std_min (<)) ex children st
      | CAT \<Rightarrow> bindR (CAT_loop children ex [] st) (\<lambda>(ss, st1). returnEncoded ss st1)
      | SUBSTR \<Rightarrow> evalSUBSTR ex children st
      | SSADD \<Rightarrow> evalSSADD ex children st)"

subsection \<open>Conditions\<close>

definition evalConstraint :: "Exec \<Rightarrow> BinaryConstraintOp \<Rightarrow> Node \<Rightarrow> Node \<Rightarrow> State \<Rightarrow> Result" where
  "evalConstraint ex op lhs rhs st =
     bindR (ex lhs st) (\<lambda>(l, st1).
     bindR (ex rhs st1) (\<lambda>(r, st2).
     Inr (fromBool
           (case op of
              EQ \<Rightarrow> l = r | NE \<Rightarrow> l \<noteq> r
            | LT \<Rightarrow> signedLess l r | ULT \<Rightarrow> l < r
            | LE \<Rightarrow> signedLessEq l r | ULE \<Rightarrow> l \<le> r
            | GT \<Rightarrow> signedLess r l | UGT \<Rightarrow> r < l
            | GE \<Rightarrow> signedLessEq r l | UGE \<Rightarrow> r \<le> l), st2)))"

primrec evalConjunction :: "Node list \<Rightarrow> Exec \<Rightarrow> State \<Rightarrow> Result" where
  "evalConjunction [] ex st = Inr (fromBool True, st)"
| "evalConjunction (child # rest) ex st =
     bindR (ex child st) (\<lambda>(v, st1).
     if \<not> toBool v then Inr (fromBool False, st1) else evalConjunction rest ex st1)"

subsection \<open>The adapter relation \<open>LLMQueryRelationWrapper\<close>\<close>

definition classNames :: "string list" where
  "classNames =
     [''Book'', ''Book'', ''Book'', ''Book'', ''Book'', ''Book'', ''Book'',
      ''Member'', ''Member'', ''Member'', ''Member'', ''Member'', ''Member'',
      ''Library'', ''Library'', ''Library'', ''Library'', ''Library'', ''Library'',
      ''Library'', ''Library'', ''LibraryManagementSystem'']"

definition methodSignatures :: "string list" where
  "methodSignatures =
     [''Book.Book:null(java.lang.String, java.lang.String, java.lang.String)'',
      ''Book.getIsbn:java.lang.String()'', ''Book.getTitle:java.lang.String()'',
      ''Book.getAuthor:java.lang.String()'', ''Book.isAvailable:boolean()'',
      ''Book.setAvailable:void(boolean)'', ''Book.toString:java.lang.String()'',
      ''Member.Member:null(java.lang.String, java.lang.String)'',
      ''Member.getMemberId:java.lang.String()'', ''Member.getName:java.lang.String()'',
      ''Member.getBorrowedBooks:java.util.List<Book>()'', ''Member.borrowBook:void(Book)'',
      ''Member.returnBook:void(Book)'', ''Library.Library:null()'',
      ''Library.addBook:void(java.lang.String, java.lang.String, java.lang.String)'',
      ''Library.addMember:void(java.lang.String, java.lang.String)'',
      ''Library.borrowBook:boolean(java.lang.String, java.lang.String)'',
      ''Library.returnBook:boolean(java.lang.String, java.lang.String)'',
      ''Library.getAvailableBooks:java.util.List<Book>()'',
      ''Library.getMemberBorrowedBooks:java.util.List<Book>(java.lang.String)'',
      ''Library.searchBookByTitle:java.util.List<Book>(java.lang.String)'',
      ''LibraryManagementSystem.main:void(java.lang.String[])'']"

text \<open>The two query loops: an id is appended for each name that has a row.\<close>

primrec classElementIds :: "string list \<Rightarrow> Database \<Rightarrow> RamDomain list" where
  "classElementIds [] db = []"
| "classElementIds (className # rest) db =
     (case class_table db className of
        Some i \<Rightarrow> i # classElementIds rest db
      | None \<Rightarrow> classElementIds rest db)"

primrec methodElementIds :: "string list \<Rightarrow> Database \<Rightarrow> RamDomain list" where
  "methodElementIds [] db = []"
| "methodElementIds (methodSignature # rest) db =
     (case method_table db methodSignature of
        Some i \<Rightarrow> i # methodElementIds rest db
      | None \<Rightarrow>
          (case constructor_table db methodSignature of
             Some i \<Rightarrow> i # methodElementIds rest db
           | None \<Rightarrow> methodElementIds rest db))"

text \<open>The insertion loop: for each \<open>i\<close> below the number of class ids, the tuple
  \<open>(classElementIds[i], methodElementIds[i])\<close> is inserted into the internal relation.\<close>

primrec insertPairs :: "RamDomain list \<Rightarrow> Host \<Rightarrow> RamDomain list \<Rightarrow> Tuple list \<Rightarrow> error + Tuple list" where
  "insertPairs [] h methodIds rel = Inr rel"
| "insertPairs (classId # rest) h methodIds rel =
     (case methodIds of
        [] \<Rightarrow> Inl UndefinedBehaviour
      | methodId # methodIds' \<Rightarrow> insertPairs rest h methodIds' (rel_insert h [classId, methodId] rel))"

text \<open>The loop over the tuples of \<open>R_5coref4java8Callable7getName\<close>: it reads columns 0
  and 1 and decodes column 0; what it collects is not used.\<close>

primrec readMethodNames :: "Tuple list \<Rightarrow> string list \<Rightarrow> error + unit" where
  "readMethodNames [] tbl = Inr ()"
| "readMethodNames (tupleData # rest) tbl =
     (if length tupleData < 2 then Inl UndefinedBehaviour
      else bindR (decode tbl (tupleData ! 0)) (\<lambda>methodName. readMethodNames rest tbl))"

text \<open>
  \<open>loadDataIfNeeded\<close>. The loop that collects the names of the non-empty relations only
  feeds a debug print and is left out.
\<close>

definition loadDataIfNeeded ::
  "Host \<Rightarrow> Engine \<Rightarrow> LLMQueryRelationWrapper \<Rightarrow> error + LLMQueryRelationWrapper" where
  "loadDataIfNeeded h eng w =
     (if dataLoaded w then Inr w
      else
        (case relToIdMap eng ''R_5coref4java8Callable7getName'' of
           None \<Rightarrow> Inr w
         | Some nameID \<Rightarrow>
             bindR (getRelationHandle eng nameID) (\<lambda>rel.
             bindR (readMethodNames
                      (case rel of Relation name c \<Rightarrow> rel_scan h c | LLMQueryRelation name x \<Rightarrow> [])
                      (symbolTable eng)) (\<lambda>u.
             (case database h of
                None \<Rightarrow> Inl (Fatal ''SQLite::Exception'')
              | Some db \<Rightarrow>
                  bindR (insertPairs (classElementIds classNames db) h
                           (methodElementIds methodSignatures db) (internalRelation w)) (\<lambda>r.
                  Inr \<lparr>internalRelation = r, dataLoaded = True\<rparr>))))))"

text \<open>
  The methods of the adapter. The flag \<open>dataLoaded\<close> is \<open>mutable\<close>, so every method
  returns the adapter next to its result. An iterator is the sequence of tuples from its
  position on; a view is named by its index position.
\<close>

definition begin_rel ::
  "Host \<Rightarrow> Engine \<Rightarrow> LLMQueryRelationWrapper \<Rightarrow> error + Tuple list \<times> LLMQueryRelationWrapper" where
  "begin_rel h eng w =
     bindR (loadDataIfNeeded h eng w) (\<lambda>w'. Inr (rel_scan h (internalRelation w'), w'))"

definition end_rel ::
  "Host \<Rightarrow> Engine \<Rightarrow> LLMQueryRelationWrapper \<Rightarrow> error + Tuple list \<times> LLMQueryRelationWrapper" where
  "end_rel h eng w = bindR (loadDataIfNeeded h eng w) (\<lambda>w'. Inr ([], w'))"

definition insert_rel ::
  "Host \<Rightarrow> Engine \<Rightarrow> Tuple \<Rightarrow> LLMQueryRelationWrapper \<Rightarrow> error + unit \<times> LLMQueryRelationWrapper" where
  "insert_rel h eng tuple w = bindR (loadDataIfNeeded h eng w) (\<lambda>w'. Inr ((), w'))"

definition contains_rel ::
  "Host \<Rightarrow> Engine \<Rightarrow> Tuple \<Rightarrow> LLMQueryRelationWrapper \<Rightarrow> error + bool \<times> LLMQueryRelationWrapper" where
  "contains_rel h eng tuple w =
     bindR (loadDataIfNeeded h eng w) (\<lambda>w'. Inr (rel_contains h (internalRelation w') tuple, w'))"

definition isEmpty ::
  "Host \<Rightarrow> Engine \<Rightarrow> LLMQueryRelationWrapper \<Rightarrow> error + bool \<times> LLMQueryRelationWrapper" where
  "isEmpty h eng w = Inr (\<not> dataLoaded w \<or> rel_empty h (internalRelation w), w)"

definition size_rel ::
  "Host \<Rightarrow> Engine \<Rightarrow> LLMQueryRelationWrapper \<Rightarrow> error + nat \<times> LLMQueryRelationWrapper" where
  "size_rel h eng w =
     bindR (loadDataIfNeeded h eng w) (\<lambda>w'. Inr (rel_size h (internalRelation w'), w'))"

definition purge ::
  "Host \<Rightarrow> Engine \<Rightarrow> LLMQueryRelationWrapper \<Rightarrow> error + unit \<times> LLMQueryRelationWrapper" where
  "purge h eng w =
     Inr ((), \<lparr>internalRelation = rel_purge h (internalRelation w), dataLoaded = False\<rparr>)"

definition printStats ::
  "Host \<Rightarrow> Engine \<Rightarrow> string \<Rightarrow> LLMQueryRelationWrapper \<Rightarrow> error + string \<times> LLMQueryRelationWrapper" where
  "printStats h eng out w =
     bindR (loadDataIfNeeded h eng w) (\<lambda>w'. Inr (out @ rel_printStats h (internalRelation w'), w'))"

definition getIndexOrder ::
  "Host \<Rightarrow> Engine \<Rightarrow> nat \<Rightarrow> LLMQueryRelationWrapper \<Rightarrow> error + nat list \<times> LLMQueryRelationWrapper" where
  "getIndexOrder h eng idx w =
     bindR (loadDataIfNeeded h eng w) (\<lambda>w'. Inr (rel_getIndexOrder h (internalRelation w') idx, w'))"

definition createView ::
  "Host \<Rightarrow> Engine \<Rightarrow> nat \<Rightarrow> LLMQueryRelationWrapper \<Rightarrow> error + nat \<times> LLMQueryRelationWrapper" where
  "createView h eng indexPos w = bindR (loadDataIfNeeded h eng w) (\<lambda>w'. Inr (indexPos, w'))"

subsection \<open>Relation operations of the engine\<close>

text \<open>
  The cases \<open>EmptinessCheck\<close> and \<open>Clear\<close>. A \<open>static_cast\<close> of a relation handle to a
  class the relation does not have has no defined result.
\<close>

definition evalEmptinessCheck :: "Host \<Rightarrow> nat \<Rightarrow> State \<Rightarrow> Result" where
  "evalEmptinessCheck h relation st =
     bindR (getRelationHandle (fst st) relation) (\<lambda>currentRelWrapper.
     if getName currentRelWrapper = ''R_5coref4java8Callable16getBelongedClass'' then
       (case currentRelWrapper of
          LLMQueryRelation name llmWrapper \<Rightarrow>
            bindR (isEmpty h (fst st) llmWrapper) (\<lambda>(b, w').
            Inr (fromBool b,
                 (fst st)\<lparr>relations := (relations (fst st))[relation := LLMQueryRelation name w']\<rparr>,
                 snd st))
        | Relation name c \<Rightarrow> Inl UndefinedBehaviour)
     else
       (case currentRelWrapper of
          Relation name c \<Rightarrow> Inr (fromBool (rel_empty h c), st)
        | LLMQueryRelation name llmWrapper \<Rightarrow> Inl UndefinedBehaviour))"

definition evalClear :: "Host \<Rightarrow> nat \<Rightarrow> State \<Rightarrow> Result" where
  "evalClear h relation st =
     bindR (getRelationHandle (fst st) relation) (\<lambda>rel.
     (case rel of
        Relation name c \<Rightarrow>
          Inr (fromBool True,
               (fst st)\<lparr>relations := (relations (fst st))[relation := Relation name (rel_purge h c)]\<rparr>,
               snd st)
      | LLMQueryRelation name w \<Rightarrow>
          bindR (purge h (fst st) w) (\<lambda>(u, w').
          Inr (fromBool True,
               (fst st)\<lparr>relations := (relations (fst st))[relation := LLMQueryRelation name w']\<rparr>,
               snd st))))"

definition evalInsert :: "Host \<Rightarrow> Exec \<Rightarrow> nat \<Rightarrow> nat \<Rightarrow> Node SuperInstruction \<Rightarrow> State \<Rightarrow> Result" where
  "evalInsert h ex arity relation superInfo st =
     bindR (TUPLE_COPY_FROM arity (first superInfo)) (\<lambda>tuple.
     bindR (setTupleElements (tupleFirst superInfo) (snd st) tuple) (\<lambda>tuple.
     bindR (setExprs (exprFirst superInfo) ex tuple st) (\<lambda>(tuple, st1).
     bindR (getRelationHandle (fst st1) relation) (\<lambda>rel.
     (case rel of
        Relation name c \<Rightarrow>
          Inr (fromBool True,
               (fst st1)\<lparr>relations :=
                  (relations (fst st1))[relation := Relation name (rel_insert h tuple c)]\<rparr>,
               snd st1)
      | LLMQueryRelation name w \<Rightarrow> Inl UndefinedBehaviour)))))"

text \<open>The case \<open>Insert\<close> of \<open>execute\<close>.\<close>

definition execInsert :: "Host \<Rightarrow> Exec \<Rightarrow> nat \<Rightarrow> nat \<Rightarrow> Node SuperInstruction \<Rightarrow> State \<Rightarrow> Result" where
  "execInsert h ex arity relation superInfo st =
     bindR (getRelationHandle (fst st) relation) (\<lambda>rel.
     if getName rel = ''R_5coref4java8Callable16getBelongedClass'' then Inr (fromBool True, st)
     else evalInsert h ex arity relation superInfo st)"

subsection \<open>Existence checks\<close>

text \<open>\<open>reads[shadow.getRelationName()]++\<close>, when profiling is on and the relation is not
  temporary.\<close>

definition countRead :: "bool \<Rightarrow> string \<Rightarrow> Engine \<Rightarrow> Engine" where
  "countRead isTemp relationName eng =
     (if profileEnabled eng \<and> \<not> isTemp
      then eng\<lparr>reads := (reads eng)(relationName := reads eng relationName + 1)\<rparr>
      else eng)"

text \<open>The point tuple of a total search.\<close>

definition pointTuple :: "Exec \<Rightarrow> nat \<Rightarrow> Node SuperInstruction \<Rightarrow> State \<Rightarrow> error + Tuple \<times> State" where
  "pointTuple ex arity superInfo st =
     bindR (TUPLE_COPY_FROM arity (first superInfo)) (\<lambda>tuple.
     bindR (setTupleElements (tupleFirst superInfo) (snd st) tuple) (\<lambda>tuple.
     setExprs (exprFirst superInfo) ex tuple st))"

text \<open>The bounds of a partial search.\<close>

definition partialBounds ::
  "Exec \<Rightarrow> nat \<Rightarrow> Node SuperInstruction \<Rightarrow> State \<Rightarrow> error + (Tuple \<times> Tuple) \<times> State" where
  "partialBounds ex arity superInfo st =
     bindR (TUPLE_COPY_FROM arity (first superInfo)) (\<lambda>low.
     bindR (TUPLE_COPY_FROM arity (second superInfo)) (\<lambda>high.
     bindR (setTupleElementsBoth (tupleFirst superInfo) (snd st) (low, high)) (\<lambda>lh.
     setExprsBoth (exprFirst superInfo) ex lh st)))"

definition evalExistenceCheck ::
  "Host \<Rightarrow> Exec \<Rightarrow> nat \<Rightarrow> nat \<Rightarrow> bool \<Rightarrow> string \<Rightarrow> bool \<Rightarrow> Node SuperInstruction \<Rightarrow> State \<Rightarrow> Result" where
  "evalExistenceCheck h ex arity viewPos isTemp relationName isTotalSearch superInfo st =
     (if isTotalSearch then
        bindR (pointTuple ex arity superInfo (countRead isTemp relationName (fst st), snd st))
          (\<lambda>(tuple, st1).
        bindR (getView (snd st1) viewPos) (\<lambda>view.
        bindR (viewTuples (fst st1) view) (\<lambda>tuples.
        Inr (fromBool (view_contains h tuples (snd view) tuple), st1))))
      else
        bindR (partialBounds ex arity superInfo (countRead isTemp relationName (fst st), snd st))
          (\<lambda>(lh, st1).
        bindR (getView (snd st1) viewPos) (\<lambda>view.
        bindR (viewTuples (fst st1) view) (\<lambda>tuples.
        Inr (fromBool (view_contains_bounds h tuples (snd view) (fst lh) (snd lh)), st1)))))"

text \<open>The four assignments to the last two columns; \<open>Arity - 2\<close> is computed in
  \<open>std::size_t\<close> and lies outside the tuple when the arity is below 2.\<close>

definition provenanceBounds :: "nat \<Rightarrow> Tuple \<times> Tuple \<Rightarrow> error + Tuple \<times> Tuple" where
  "provenanceBounds arity lh =
     (if arity < 2 then Inl UndefinedBehaviour
      else
        bindR (storeColumn (fst lh) (arity - 2) MIN_RAM_SIGNED) (\<lambda>low.
        bindR (storeColumn low (arity - 1) MIN_RAM_SIGNED) (\<lambda>low.
        bindR (storeColumn (snd lh) (arity - 2) MAX_RAM_SIGNED) (\<lambda>high.
        bindR (storeColumn high (arity - 1) MAX_RAM_SIGNED) (\<lambda>high.
        Inr (low, high))))))"

definition evalProvenanceExistenceCheck ::
  "Host \<Rightarrow> Exec \<Rightarrow> nat \<Rightarrow> nat \<Rightarrow> Node SuperInstruction \<Rightarrow> Node \<Rightarrow> State \<Rightarrow> Result" where
  "evalProvenanceExistenceCheck h ex arity viewPos superInfo child st =
     bindR (partialBounds ex arity superInfo st) (\<lambda>(lh, st1).
     bindR (provenanceBounds arity lh) (\<lambda>(low, high).
     bindR (getView (snd st1) viewPos) (\<lambda>view.
     bindR (viewTuples (fst st1) view) (\<lambda>tuples.
     (case view_range h tuples (snd view) low high of
        [] \<Rightarrow> Inr (fromBool False, st1)
      | firstTuple # others \<Rightarrow>
          bindR (ex child st1) (\<lambda>(threshold, st2).
          if arity - 1 < length firstTuple
          then Inr (fromBool (signedLessEq (firstTuple ! (arity - 1)) threshold), st2)
          else Inl UndefinedBehaviour))))))"

subsection \<open>Aggregation\<close>

definition initValue :: "Host \<Rightarrow> Exec \<Rightarrow> Node AggregateShadow \<Rightarrow> State \<Rightarrow> Result" where
  "initValue h ex shadow st =
     (case getAggregator shadow of
        IntrinsicAggregator f \<Rightarrow>
          Inr ((case f of
                  AggMIN \<Rightarrow> MAX_RAM_SIGNED
                | AggUMIN \<Rightarrow> MAX_RAM_UNSIGNED
                | AggFMIN \<Rightarrow> MAX_RAM_FLOAT h
                | AggMAX \<Rightarrow> MIN_RAM_SIGNED
                | AggUMAX \<Rightarrow> MIN_RAM_UNSIGNED
                | AggFMAX \<Rightarrow> MIN_RAM_FLOAT h
                | AggSUM \<Rightarrow> 0
                | AggUSUM \<Rightarrow> 0
                | AggFSUM \<Rightarrow> 0
                | AggMEAN \<Rightarrow> 0
                | AggCOUNT \<Rightarrow> 0), st)
      | UserDefinedAggregator stateful \<Rightarrow>
          (case getInit shadow of
             None \<Rightarrow> Inl UndefinedBehaviour
           | Some init \<Rightarrow> ex init st))"

definition runNested :: "Aggregator \<Rightarrow> bool" where
  "runNested aggregator =
     (case aggregator of
        IntrinsicAggregator f \<Rightarrow>
          (case f of
             AggCOUNT \<Rightarrow> True
           | AggFSUM \<Rightarrow> True
           | AggUSUM \<Rightarrow> True
           | AggSUM \<Rightarrow> True
           | _ \<Rightarrow> False)
      | UserDefinedAggregator stateful \<Rightarrow> True)"

text \<open>
  The accumulators of the loop of \<open>evalAggregate\<close>: \<open>res\<close>, \<open>shouldRunNested\<close> and the
  pair \<open>accumulateMean\<close>.
\<close>

record Accumulators =
  res :: RamDomain
  shouldRunNested :: bool
  accumulateMean :: "RamDomain \<times> RamDomain"

text \<open>The combination of the accumulator with the value of the target expression.\<close>

definition combine ::
  "Host \<Rightarrow> Node AggregateShadow \<Rightarrow> RamDomain \<Rightarrow> Accumulators \<Rightarrow> Engine \<Rightarrow> error + Accumulators \<times> Engine" where
  "combine h shadow val acc eng =
     (case getAggregator shadow of
        IntrinsicAggregator f \<Rightarrow>
          (case f of
             AggMIN \<Rightarrow> Inr (acc\<lparr>res := std_min signedLess (res acc) val\<rparr>, eng)
           | AggFMIN \<Rightarrow> Inr (acc\<lparr>res := std_min (float_less h) (res acc) val\<rparr>, eng)
           | AggUMIN \<Rightarrow> Inr (acc\<lparr>res := std_min (<) (res acc) val\<rparr>, eng)
           | AggMAX \<Rightarrow> Inr (acc\<lparr>res := std_max signedLess (res acc) val\<rparr>, eng)
           | AggFMAX \<Rightarrow> Inr (acc\<lparr>res := std_max (float_less h) (res acc) val\<rparr>, eng)
           | AggUMAX \<Rightarrow> Inr (acc\<lparr>res := std_max (<) (res acc) val\<rparr>, eng)
           | AggSUM \<Rightarrow> Inr (acc\<lparr>res := res acc + val\<rparr>, eng)
           | AggFSUM \<Rightarrow> Inr (acc\<lparr>res := float_add h (res acc) val\<rparr>, eng)
           | AggUSUM \<Rightarrow> Inr (acc\<lparr>res := res acc + val\<rparr>, eng)
           | AggMEAN \<Rightarrow>
               Inr (acc\<lparr>accumulateMean :=
                      (float_add h (fst (accumulateMean acc)) val,
                       float_add h (snd (accumulateMean acc)) (float_one h))\<rparr>, eng)
           | AggCOUNT \<Rightarrow> Inl (Fatal ''This should never be executed''))
      | UserDefinedAggregator stateful \<Rightarrow>
          (case getFunctionPointer shadow of
             Some userFunctorPtr \<Rightarrow>
               if stateful then
                 Inr (acc\<lparr>res := fst (userFunctorPtr (symbolTable eng) (res acc) val)\<rparr>,
                      eng\<lparr>symbolTable := snd (userFunctorPtr (symbolTable eng) (res acc) val)\<rparr>)
               else Inl (Fatal ''stateless functors not supported in user-defined aggregates'')
           | None \<Rightarrow> Inl (Fatal ''stateless functors not supported in user-defined aggregates'')))"

text \<open>The loop over the candidate tuples.\<close>

primrec aggregateLoop ::
  "Tuple list \<Rightarrow> Host \<Rightarrow> Exec \<Rightarrow> Node AggregateShadow \<Rightarrow> Accumulators \<Rightarrow> State \<Rightarrow> error + Accumulators \<times> State" where
  "aggregateLoop [] h ex shadow acc st = Inr (acc, st)"
| "aggregateLoop (tuple # ranges) h ex shadow acc st =
     bindR (ex (getCondition shadow) (fst st, bindTuple (getTupleId shadow) tuple (snd st)))
       (\<lambda>(passed, st1).
     if \<not> toBool passed then aggregateLoop ranges h ex shadow acc st1
     else if getAggregator shadow = IntrinsicAggregator AggCOUNT
     then aggregateLoop ranges h ex shadow (acc\<lparr>shouldRunNested := True, res := res acc + 1\<rparr>) st1
     else
       (case getExpr shadow of
          None \<Rightarrow> Inl (Fatal ''assert(expression)'')
        | Some expression \<Rightarrow>
            bindR (ex expression st1) (\<lambda>(val, st2).
            bindR (combine h shadow val (acc\<lparr>shouldRunNested := True\<rparr>) (fst st2)) (\<lambda>(acc', eng3).
            aggregateLoop ranges h ex shadow acc' (eng3, snd st2)))))"

text \<open>The division that ends \<open>MEAN\<close>.\<close>

definition finishMean :: "Host \<Rightarrow> Node AggregateShadow \<Rightarrow> Accumulators \<Rightarrow> RamDomain" where
  "finishMean h shadow acc =
     (if getAggregator shadow = IntrinsicAggregator AggMEAN
         \<and> \<not> float_is_zero h (snd (accumulateMean acc))
      then float_div h (fst (accumulateMean acc)) (snd (accumulateMean acc))
      else res acc)"

definition evalAggregate ::
  "Host \<Rightarrow> Exec \<Rightarrow> Node AggregateShadow \<Rightarrow> Tuple list \<Rightarrow> State \<Rightarrow> Result" where
  "evalAggregate h ex shadow ranges st =
     bindR (initValue h ex shadow st) (\<lambda>(init, st0).
     bindR (aggregateLoop ranges h ex shadow
              \<lparr>res = init, shouldRunNested = runNested (getAggregator shadow),
               accumulateMean = (0, 0)\<rparr> st0) (\<lambda>(acc, st1).
     if \<not> shouldRunNested acc
     then Inr (fromBool True,
               fst st1, bindTuple (getTupleId shadow) [finishMean h shadow acc] (snd st1))
     else ex (getNestedOperation shadow)
            (fst st1, bindTuple (getTupleId shadow) [finishMean h shadow acc] (snd st1))))"

text \<open>The case \<open>Aggregate\<close>, over \<open>rel.scan()\<close>, and \<open>evalIndexAggregate\<close>, over the
  range of the view between the search bounds.\<close>

definition execAggregate :: "Host \<Rightarrow> Exec \<Rightarrow> nat \<Rightarrow> Node AggregateShadow \<Rightarrow> State \<Rightarrow> Result" where
  "execAggregate h ex relation shadow st =
     bindR (getRelationHandle (fst st) relation) (\<lambda>rel.
     (case rel of
        Relation name c \<Rightarrow> evalAggregate h ex shadow (rel_scan h c) st
      | LLMQueryRelation name w \<Rightarrow> Inl UndefinedBehaviour))"

definition evalIndexAggregate ::
  "Host \<Rightarrow> Exec \<Rightarrow> nat \<Rightarrow> nat \<Rightarrow> Node SuperInstruction \<Rightarrow> Node AggregateShadow \<Rightarrow> State \<Rightarrow> Result" where
  "evalIndexAggregate h ex arity viewId superInfo shadow st =
     bindR (CAL_SEARCH_BOUND ex arity superInfo st) (\<lambda>(lh, st1).
     bindR (getView (snd st1) viewId) (\<lambda>view.
     bindR (viewTuples (fst st1) view) (\<lambda>tuples.
     evalAggregate h ex shadow (view_range h tuples (snd view) (fst lh) (snd lh)) st1)))"

subsection \<open>Filter and the statements\<close>

text \<open>\<open>frequencies[text][getIterationNumber()]++\<close>, after the deque has been extended to
  that position.\<close>

definition countFrequency :: "string \<Rightarrow> Engine \<Rightarrow> Engine" where
  "countFrequency profileText eng =
     (let i = unat (iteration eng);
          currentFrequencies = frequencies eng profileText;
          extended = currentFrequencies @ replicate (Suc i - length currentFrequencies) 0
      in eng\<lparr>frequencies := (frequencies eng)(profileText := extended[i := extended ! i + 1])\<rparr>)"

definition evalFilter :: "Exec \<Rightarrow> string \<Rightarrow> Node \<Rightarrow> Node \<Rightarrow> State \<Rightarrow> Result" where
  "evalFilter ex profileText condition nested st =
     bindR (ex condition st) (\<lambda>(c, st1).
     bindR (if toBool c then ex nested st1 else Inr (fromBool True, st1)) (\<lambda>(result, st2).
     Inr (fromBool (toBool result),
          (if profileEnabled (fst st2) \<and> frequencyCounterEnabled (fst st2) \<and> profileText \<noteq> []
           then countFrequency profileText (fst st2) else fst st2),
          snd st2)))"

text \<open>The loop of the case \<open>Sequence\<close> and the loop of the case \<open>Parallel\<close>.\<close>

primrec evalSequence :: "Node list \<Rightarrow> Exec \<Rightarrow> State \<Rightarrow> Result" where
  "evalSequence [] ex st = Inr (fromBool True, st)"
| "evalSequence (child # rest) ex st =
     bindR (ex child st) (\<lambda>(v, st1).
     if \<not> toBool v then Inr (fromBool False, st1) else evalSequence rest ex st1)"

primrec evalParallel :: "Node list \<Rightarrow> Exec \<Rightarrow> State \<Rightarrow> Result" where
  "evalParallel [] ex st = Inr (fromBool True, st)"
| "evalParallel (child # rest) ex st =
     bindR (ex child st) (\<lambda>(v, st1).
     if \<not> toBool v then Inr (fromBool False, st1) else evalParallel rest ex st1)"

definition incIterationNumber :: "Engine \<Rightarrow> Engine" where
  "incIterationNumber eng = eng\<lparr>iteration := iteration eng + 1\<rparr>"

definition resetIterationNumber :: "Engine \<Rightarrow> Engine" where
  "resetIterationNumber eng = eng\<lparr>iteration := 0\<rparr>"

text \<open>
  \<open>while (execute(shadow.getChild(), ctxt)) { incIterationNumber(); }\<close>. The loop need not
  end; the first argument bounds the number of passes.
\<close>

primrec whileLoop :: "nat \<Rightarrow> (State \<Rightarrow> Result) \<Rightarrow> State \<Rightarrow> error + State" where
  "whileLoop 0 body st = Inl OutOfFuel"
| "whileLoop (Suc k) body st =
     bindR (body st) (\<lambda>(v, st1).
     if toBool v then whileLoop k body (incIterationNumber (fst st1), snd st1)
     else Inr st1)"

definition evalLoop :: "nat \<Rightarrow> (State \<Rightarrow> Result) \<Rightarrow> State \<Rightarrow> Result" where
  "evalLoop k body st =
     bindR (whileLoop k body (resetIterationNumber (fst st), snd st)) (\<lambda>st1.
     Inr (fromBool True, resetIterationNumber (fst st1), snd st1))"

subsection \<open>\<open>Engine::execute\<close>\<close>

text \<open>
  The dispatch on the kind of the node. The first argument bounds the depth of the
  recursion and the number of passes of a \<open>Loop\<close>.
\<close>

primrec execute :: "nat \<Rightarrow> Host \<Rightarrow> Node \<Rightarrow> State \<Rightarrow> Result" where
  "execute 0 h node st = Inl OutOfFuel"
| "execute (Suc n) h node st =
     (case node of
        NumericConstant c \<Rightarrow> Inr (c, st)
      | StringConstant c \<Rightarrow> Inr (c, st)
      | TupleElement tupleId element \<Rightarrow>
          bindR (readTupleElement (snd st) tupleId element) (\<lambda>v. Inr (v, st))
      | AutoIncrement \<Rightarrow> Inr (counter (fst st), (fst st)\<lparr>counter := counter (fst st) + 1\<rparr>, snd st)
      | IntrinsicOperator op args \<Rightarrow> execIntrinsic (execute n h) op args st
      | True_Node \<Rightarrow> Inr (fromBool True, st)
      | False_Node \<Rightarrow> Inr (fromBool False, st)
      | Conjunction children \<Rightarrow> evalConjunction children (execute n h) st
      | Negation child \<Rightarrow>
          bindR (execute n h child st) (\<lambda>(v, st1). Inr (fromBool (\<not> toBool v), st1))
      | Constraint op lhs rhs \<Rightarrow> evalConstraint (execute n h) op lhs rhs st
      | EmptinessCheck relation \<Rightarrow> evalEmptinessCheck h relation st
      | ExistenceCheck arity viewId isTemp relationName isTotalSearch superInst \<Rightarrow>
          evalExistenceCheck h (execute n h) arity viewId isTemp relationName isTotalSearch
            superInst st
      | ProvenanceExistenceCheck arity viewId superInst child \<Rightarrow>
          evalProvenanceExistenceCheck h (execute n h) arity viewId superInst child st
      | Aggregate relation shadow \<Rightarrow> execAggregate h (execute n h) relation shadow st
      | IndexAggregate arity viewId superInst shadow \<Rightarrow>
          evalIndexAggregate h (execute n h) arity viewId superInst shadow st
      | Filter profileText condition nested \<Rightarrow>
          evalFilter (execute n h) profileText condition nested st
      | Insert arity relation superInst \<Rightarrow> execInsert h (execute n h) arity relation superInst st
      | Sequence children \<Rightarrow> evalSequence children (execute n h) st
      | Parallel children \<Rightarrow> evalParallel children (execute n h) st
      | Loop child \<Rightarrow> evalLoop n (execute n h child) st
      | Exit child \<Rightarrow>
          bindR (execute n h child st) (\<lambda>(v, st1). Inr (fromBool (\<not> toBool v), st1))
      | Clear relation \<Rightarrow> evalClear h relation st)"

section \<open>The statement of serial execution\<close>

text \<open>
  The description of \<open>Sequence\<close> and \<open>Parallel\<close> in words, as a relation between the
  children, the state before and the result: the children are executed in order; the first
  child that returns false ends the run, which returns false; when every child has
  returned true the run returns true.
\<close>

inductive runsSerially :: "Exec \<Rightarrow> Node list \<Rightarrow> State \<Rightarrow> RamDomain \<times> State \<Rightarrow> bool" where
  all_true: "runsSerially ex [] st (fromBool True, st)"
| stops_at_false:
    "ex child st = Inr (v, st1) \<Longrightarrow> \<not> toBool v \<Longrightarrow>
     runsSerially ex (child # rest) st (fromBool False, st1)"
| continues:
    "ex child st = Inr (v, st1) \<Longrightarrow> toBool v \<Longrightarrow> runsSerially ex rest st1 r \<Longrightarrow>
     runsSerially ex (child # rest) st r"

code_pred runsSerially .

inductive_cases runsSerially_NilE: "runsSerially ex [] st r"
inductive_cases runsSerially_ConsE: "runsSerially ex (child # rest) st r"

section \<open>The adapter after a method call\<close>

text \<open>What a method of the adapter leaves of the adapter: the second component of what it
  returns.\<close>

definition adapterAfter :: "error + 'a \<times> LLMQueryRelationWrapper \<Rightarrow> error + LLMQueryRelationWrapper" where
  "adapterAfter m = (case m of Inl e \<Rightarrow> Inl e | Inr (r, w) \<Rightarrow> Inr w)"

section \<open>The columns a search fixes\<close>

text \<open>The columns of a search tuple that the loops over \<open>tupleFirst\<close> and \<open>exprFirst\<close>
  write: those fixed by an element of the context or by an expression.\<close>

definition fixedColumns :: "Node SuperInstruction \<Rightarrow> nat set" where
  "fixedColumns superInfo = fst ` set (tupleFirst superInfo) \<union> fst ` set (exprFirst superInfo)"

text \<open>The elements of the context that the entries of \<open>tupleFirst\<close> name, in the order of
  the entries: \<open>ctxt[tupleElement[1]][tupleElement[2]]\<close>.\<close>

primrec contextValues :: "(nat \<times> nat \<times> nat) list \<Rightarrow> Context \<Rightarrow> error + RamDomain list" where
  "contextValues [] ctxt = Inr []"
| "contextValues (tupleElement # rest) ctxt =
     bindR (readTupleElement ctxt (fst (snd tupleElement)) (snd (snd tupleElement))) (\<lambda>v.
     bindR (contextValues rest ctxt) (\<lambda>vs. Inr (v # vs)))"

text \<open>The values of a list of expressions evaluated one after the other, each in the state
  that the one before it left.\<close>

primrec evalInOrder :: "Exec \<Rightarrow> Node list \<Rightarrow> State \<Rightarrow> error + RamDomain list \<times> State" where
  "evalInOrder ex [] st = Inr ([], st)"
| "evalInOrder ex (expr # rest) st =
     bindR (ex expr st) (\<lambda>(v, st1).
     bindR (evalInOrder ex rest st1) (\<lambda>(vs, st2). Inr (v # vs, st2)))"

text \<open>
  The value that a search fixes in column \<open>c\<close>, if it fixes one, given the values \<open>tvals\<close>
  of the context elements and \<open>evals\<close> of the expressions: the value of the last entry
  for \<open>c\<close>, the entries of \<open>exprFirst\<close> coming after those of \<open>tupleFirst\<close>.
\<close>

definition fixedValue ::
  "Node SuperInstruction \<Rightarrow> RamDomain list \<Rightarrow> RamDomain list \<Rightarrow> nat \<Rightarrow> RamDomain option" where
  "fixedValue superInfo tvals evals c =
     map_of (rev (zip (map fst (tupleFirst superInfo)) tvals
                  @ zip (map fst (exprFirst superInfo)) evals)) c"

section \<open>A sample host, engine and context\<close>

text \<open>
  A host in which a relation keeps its tuples in insertion order without duplicates and a
  range holds the tuples that lie between the bounds in every column (signed). Its float
  arithmetic is a stand-in: the examples aggregate integers only.
\<close>

definition withinBounds :: "Tuple \<Rightarrow> Tuple \<Rightarrow> Tuple \<Rightarrow> bool" where
  "withinBounds low high t = (list_all2 signedLessEq low t \<and> list_all2 signedLessEq t high)"

definition sampleDatabase :: Database where
  "sampleDatabase =
     \<lparr>class_table = (\<lambda>name. if name = ''LibraryManagementSystem'' then Some 7 else None),
      method_table = (\<lambda>signature.
         if signature = ''LibraryManagementSystem.main:void(java.lang.String[])'' then Some 9
         else None),
      constructor_table = (\<lambda>signature. None)\<rparr>"

definition sampleHost :: Host where
  "sampleHost =
     \<lparr>rel_empty = (\<lambda>c. c = []),
      rel_size = length,
      rel_insert = (\<lambda>t c. if t \<in> set c then c else c @ [t]),
      rel_contains = (\<lambda>c t. t \<in> set c),
      rel_purge = (\<lambda>c. []),
      rel_scan = (\<lambda>c. c),
      rel_printStats = (\<lambda>c. []),
      rel_getIndexOrder = (\<lambda>c idx. []),
      view_contains = (\<lambda>c idx t. t \<in> set c),
      view_contains_bounds = (\<lambda>c idx low high. filter (withinBounds low high) c \<noteq> []),
      view_range = (\<lambda>c idx low high. filter (withinBounds low high) c),
      MAX_RAM_FLOAT = 0x7FEFFFFFFFFFFFFF,
      MIN_RAM_FLOAT = 0xFFEFFFFFFFFFFFFF,
      float_one = 0x3FF0000000000000,
      float_add = (\<lambda>a b. 0),
      float_div = (\<lambda>a b. 0),
      float_less = (\<lambda>a b. False),
      float_is_zero = (\<lambda>a. a = 0),
      database = Some sampleDatabase\<rparr>"

definition sampleEngine :: Engine where
  "sampleEngine =
     \<lparr>iteration = 0,
      counter = 0,
      relations =
        [Relation ''r'' [[1, 10], [1, 7], [2, 3]],
         LLMQueryRelation ''R_5coref4java8Callable16getBelongedClass''
           \<lparr>internalRelation = [], dataLoaded = False\<rparr>,
         Relation ''R_5coref4java8Callable7getName'' [[0, 5]],
         Relation ''m'' [],
         Relation ''r3'' [[1, 2, 3], [1, 4, 5], [2, 2, 2]],
         Relation ''p'' [[8, 1, 1], [8, 2, 5]]],
      relToIdMap = map_of
        [(''r'', 0), (''R_5coref4java8Callable16getBelongedClass'', 1),
         (''R_5coref4java8Callable7getName'', 2), (''m'', 3), (''r3'', 4), (''p'', 5)],
      symbolTable = [''hello'', ''hi''],
      profileEnabled = False,
      frequencyCounterEnabled = False,
      reads = (\<lambda>name. 0),
      frequencies = (\<lambda>profileText. []),
      cerr = []\<rparr>"

definition sampleContext :: Context where
  "sampleContext = \<lparr>data = (\<lambda>tupleId. None), views = [(0, 0), (4, 0), (5, 0)]\<rparr>"

section \<open>Shift operators\<close>

lemma shift_amount_mod: "unat ((b :: 64 word) AND RAM_BIT_SHIFT_MASK) = unat b mod 64"
proof -
  have "(RAM_BIT_SHIFT_MASK :: 64 word) = mask 6"
    by (simp add: RAM_BIT_SHIFT_MASK_def RAM_DOMAIN_SIZE_def mask_eq_exp_minus_1)
  then have "unat (b AND RAM_BIT_SHIFT_MASK) = unat (take_bit 6 b)"
    by (simp add: take_bit_eq_mask)
  also have "\<dots> = take_bit 6 (unat b)"
    by (rule unsigned_take_bit_eq)
  also have "\<dots> = unat b mod 2 ^ 6"
    by (rule take_bit_eq_mod)
  finally show ?thesis by simp
qed

lemma shift_amount_mod_32: "unat ((b :: 32 word) AND RAM_BIT_SHIFT_MASK) = unat b mod 32"
proof -
  have "(RAM_BIT_SHIFT_MASK :: 32 word) = mask 5"
    by (simp add: RAM_BIT_SHIFT_MASK_def RAM_DOMAIN_SIZE_def mask_eq_exp_minus_1)
  then have "unat (b AND RAM_BIT_SHIFT_MASK) = unat (take_bit 5 b)"
    by (simp add: take_bit_eq_mask)
  also have "\<dots> = take_bit 5 (unat b)"
    by (rule unsigned_take_bit_eq)
  also have "\<dots> = unat b mod 2 ^ 5"
    by (rule take_bit_eq_mod)
  finally show ?thesis by simp
qed

lemma unat_push_bit:
  "unat (push_bit k (a :: 'a::len word)) = (unat a * 2 ^ k) mod 2 ^ LENGTH('a)"
proof -
  have "unat (push_bit k a) = take_bit LENGTH('a) (push_bit k (unat a))"
    by (rule unsigned_push_bit_eq)
  also have "\<dots> = push_bit k (unat a) mod 2 ^ LENGTH('a)"
    by (rule take_bit_eq_mod)
  also have "push_bit k (unat a) = unat a * 2 ^ k"
    by (rule push_bit_eq_mult)
  finally show ?thesis .
qed

lemma sint_signed_drop_bit: "sint (signed_drop_bit k (a :: 'a::len word)) = sint a div 2 ^ k"
proof -
  have "sint (signed_drop_bit k a) = drop_bit k (sint a)"
    by (rule sint_signed_drop_bit_eq)
  also have "\<dots> = sint a div 2 ^ k"
    by (rule drop_bit_eq_div)
  finally show ?thesis .
qed

lemma unat_drop_bit: "unat (drop_bit k (a :: 'a::len word)) = unat a div 2 ^ k"
proof -
  have "unat (drop_bit k a) = drop_bit k (unat a)"
    by (rule unat_drop_bit_eq)
  also have "\<dots> = unat a div 2 ^ k"
    by (rule drop_bit_eq_div)
  finally show ?thesis .
qed

text \<open>A binary operator applied to two children whose evaluations return.\<close>

lemma execute_binary:
  assumes "execute n h x st = Inr (a, st1)" and "execute n h y st1 = Inr (b, st2)"
  shows "BINARY_OP_TYPED op (execute n h) [x, y] st = bindR (op a b) (\<lambda>r. Inr (r, st2))"
  using assms by (simp add: BINARY_OP_TYPED_def EVAL_CHILD_def getChild_def bindR_def)

text \<open>
  C8. For each of the six shift operators, when the operands evaluate to \<open>a\<close> and \<open>b\<close>,
  the shift amount is \<open>b\<close> modulo the bit width 64 (the right operand masked with 63).
  \<open>BSHIFT_L\<close> and \<open>UBSHIFT_L\<close> shift the unsigned reading of \<open>a\<close> to the left and wrap
  around; \<open>BSHIFT_R\<close> is arithmetic (the signed reading of \<open>a\<close> divided by the power of
  two, rounded down); \<open>UBSHIFT_R\<close>, \<open>BSHIFT_R_UNSIGNED\<close> and \<open>UBSHIFT_R_UNSIGNED\<close> are
  logical (the unsigned reading divided by the power of two). Read at the 32-bit domain,
  the shift macro masks with 31 in the same way: the amount is \<open>b\<close> modulo 32.
\<close>

theorem shift_operators:
  assumes "execute n h x st = Inr (a, st1)" and "execute n h y st1 = Inr (b, st2)"
  shows "(\<exists>r. execute (Suc n) h (IntrinsicOperator BSHIFT_L [x, y]) st = Inr (r, st2)
              \<and> unat r = (unat a * 2 ^ (unat b mod 64)) mod 2 ^ 64)
       \<and> (\<exists>r. execute (Suc n) h (IntrinsicOperator UBSHIFT_L [x, y]) st = Inr (r, st2)
              \<and> unat r = (unat a * 2 ^ (unat b mod 64)) mod 2 ^ 64)
       \<and> (\<exists>r. execute (Suc n) h (IntrinsicOperator BSHIFT_R [x, y]) st = Inr (r, st2)
              \<and> sint r = sint a div 2 ^ (unat b mod 64))
       \<and> (\<exists>r. execute (Suc n) h (IntrinsicOperator UBSHIFT_R [x, y]) st = Inr (r, st2)
              \<and> unat r = unat a div 2 ^ (unat b mod 64))
       \<and> (\<exists>r. execute (Suc n) h (IntrinsicOperator BSHIFT_R_UNSIGNED [x, y]) st = Inr (r, st2)
              \<and> unat r = unat a div 2 ^ (unat b mod 64))
       \<and> (\<exists>r. execute (Suc n) h (IntrinsicOperator UBSHIFT_R_UNSIGNED [x, y]) st = Inr (r, st2)
              \<and> unat r = unat a div 2 ^ (unat b mod 64))
       \<and> (\<forall>(c :: 32 word) d.
              unat (BINARY_OP_SHIFT_MASK push_bit c d) = (unat c * 2 ^ (unat d mod 32)) mod 2 ^ 32
            \<and> sint (BINARY_OP_SHIFT_MASK signed_drop_bit c d) = sint c div 2 ^ (unat d mod 32)
            \<and> unat (BINARY_OP_SHIFT_MASK drop_bit c d) = unat c div 2 ^ (unat d mod 32))"
proof -
  have narrow: "\<forall>(c :: 32 word) d.
              unat (BINARY_OP_SHIFT_MASK push_bit c d) = (unat c * 2 ^ (unat d mod 32)) mod 2 ^ 32
            \<and> sint (BINARY_OP_SHIFT_MASK signed_drop_bit c d) = sint c div 2 ^ (unat d mod 32)
            \<and> unat (BINARY_OP_SHIFT_MASK drop_bit c d) = unat c div 2 ^ (unat d mod 32)"
    by (simp add: BINARY_OP_SHIFT_MASK_def shift_amount_mod_32 unat_push_bit sint_signed_drop_bit
          unat_drop_bit)
  have wide: "(\<exists>r. execute (Suc n) h (IntrinsicOperator BSHIFT_L [x, y]) st = Inr (r, st2)
              \<and> unat r = (unat a * 2 ^ (unat b mod 64)) mod 2 ^ 64)
       \<and> (\<exists>r. execute (Suc n) h (IntrinsicOperator UBSHIFT_L [x, y]) st = Inr (r, st2)
              \<and> unat r = (unat a * 2 ^ (unat b mod 64)) mod 2 ^ 64)
       \<and> (\<exists>r. execute (Suc n) h (IntrinsicOperator BSHIFT_R [x, y]) st = Inr (r, st2)
              \<and> sint r = sint a div 2 ^ (unat b mod 64))
       \<and> (\<exists>r. execute (Suc n) h (IntrinsicOperator UBSHIFT_R [x, y]) st = Inr (r, st2)
              \<and> unat r = unat a div 2 ^ (unat b mod 64))
       \<and> (\<exists>r. execute (Suc n) h (IntrinsicOperator BSHIFT_R_UNSIGNED [x, y]) st = Inr (r, st2)
              \<and> unat r = unat a div 2 ^ (unat b mod 64))
       \<and> (\<exists>r. execute (Suc n) h (IntrinsicOperator UBSHIFT_R_UNSIGNED [x, y]) st = Inr (r, st2)
              \<and> unat r = unat a div 2 ^ (unat b mod 64))"
    by (simp add: execIntrinsic_def execute_binary [OF assms] total_def bindR_def
          BINARY_OP_SHIFT_MASK_def shift_amount_mod unat_push_bit sint_signed_drop_bit
          unat_drop_bit)
  from wide narrow show ?thesis by (simp only: simp_thms)
qed

text \<open>\<open>-8\<close> shifted by 65: the amount is 1; to the right it gives \<open>-4\<close> when signed and
  \<open>2^63 - 4\<close> when unsigned.\<close>

theorem shift_operators_witness:
  "(\<exists>r. execute (Suc 1) sampleHost
          (IntrinsicOperator BSHIFT_R [NumericConstant (- 8), NumericConstant 65])
          (sampleEngine, sampleContext) = Inr (r, sampleEngine, sampleContext)
        \<and> sint r = - 4)
   \<and> (\<exists>r. execute (Suc 1) sampleHost
          (IntrinsicOperator UBSHIFT_R [NumericConstant (- 8), NumericConstant 65])
          (sampleEngine, sampleContext) = Inr (r, sampleEngine, sampleContext)
        \<and> unat r = 2 ^ 63 - 4)
   \<and> (\<exists>r. execute (Suc 1) sampleHost
          (IntrinsicOperator BSHIFT_L [NumericConstant (- 8), NumericConstant 65])
          (sampleEngine, sampleContext) = Inr (r, sampleEngine, sampleContext)
        \<and> unat r = 2 ^ 64 - 16)"
proof -
  have x: "execute 1 sampleHost (NumericConstant (- 8)) (sampleEngine, sampleContext)
             = Inr (- 8, sampleEngine, sampleContext)"
    by simp
  have y: "execute 1 sampleHost (NumericConstant 65) (sampleEngine, sampleContext)
             = Inr (65, sampleEngine, sampleContext)"
    by simp
  have a: "sint (- 8 :: RamDomain) = - 8" "unat (- 8 :: RamDomain) = 2 ^ 64 - 8"
    by simp_all
  have b: "unat (65 :: RamDomain) mod 64 = 1"
    by simp
  from shift_operators [OF x y]
  have "(\<exists>r. execute (Suc 1) sampleHost
          (IntrinsicOperator BSHIFT_R [NumericConstant (- 8), NumericConstant 65])
          (sampleEngine, sampleContext) = Inr (r, sampleEngine, sampleContext)
        \<and> sint r = sint (- 8 :: RamDomain) div 2 ^ (unat (65 :: RamDomain) mod 64))
   \<and> (\<exists>r. execute (Suc 1) sampleHost
          (IntrinsicOperator UBSHIFT_R [NumericConstant (- 8), NumericConstant 65])
          (sampleEngine, sampleContext) = Inr (r, sampleEngine, sampleContext)
        \<and> unat r = unat (- 8 :: RamDomain) div 2 ^ (unat (65 :: RamDomain) mod 64))
   \<and> (\<exists>r. execute (Suc 1) sampleHost
          (IntrinsicOperator BSHIFT_L [NumericConstant (- 8), NumericConstant 65])
          (sampleEngine, sampleContext) = Inr (r, sampleEngine, sampleContext)
        \<and> unat r = (unat (- 8 :: RamDomain) * 2 ^ (unat (65 :: RamDomain) mod 64)) mod 2 ^ 64)"
    by blast
  then show ?thesis
    unfolding a b by simp
qed

section \<open>Integer division\<close>



lemma sint_MIN_RAM_SIGNED: "sint MIN_RAM_SIGNED = - (2 ^ 63)"
  by (simp add: MIN_RAM_SIGNED_def)









section \<open>Sequence and Parallel\<close>

lemma evalParallel_evalSequence: "evalParallel children ex st = evalSequence children ex st"
  by (induction children arbitrary: st) (simp_all add: bindR_def split: sum.splits)

lemma evalSequence_runsSerially:
  "evalSequence children ex st = Inr r \<longleftrightarrow> runsSerially ex children st r"
proof (induction children arbitrary: st)
  case Nil
  show ?case by (auto intro: runsSerially.intros elim: runsSerially_NilE)
next
  case (Cons child rest)
  show ?case
  proof
    assume run: "evalSequence (child # rest) ex st = Inr r"
    then obtain v st1 where c: "ex child st = Inr (v, st1)"
      by (cases "ex child st") (auto simp: bindR_def)
    show "runsSerially ex (child # rest) st r"
    proof (cases "toBool v")
      case True
      with run c have "evalSequence rest ex st1 = Inr r" by (simp add: bindR_def)
      with Cons.IH have "runsSerially ex rest st1 r" by simp
      with c True show ?thesis by (rule runsSerially.continues)
    next
      case False
      with run c have "r = (fromBool False, st1)" by (simp add: bindR_def)
      with c False show ?thesis by (simp add: runsSerially.stops_at_false)
    qed
  next
    assume "runsSerially ex (child # rest) st r"
    then show "evalSequence (child # rest) ex st = Inr r"
    proof (rule runsSerially_ConsE)
      fix v st1
      assume "ex child st = Inr (v, st1)" "\<not> toBool v" "r = (fromBool False, st1)"
      then show ?thesis by (simp add: bindR_def)
    next
      fix v st1
      assume "ex child st = Inr (v, st1)" "toBool v" "runsSerially ex rest st1 r"
      with Cons.IH show ?thesis by (simp add: bindR_def)
    qed
  qed
qed

text \<open>
  C7. \<open>Parallel\<close> and \<open>Sequence\<close> over the same children have the same result in every
  state, and each returns exactly what serial execution of the children yields: the
  children run in order, the first that returns false ends the run with false, and the
  result is true when all have returned true.
\<close>

theorem parallel_is_sequence:
  "execute n h (Parallel children) st = execute n h (Sequence children) st
   \<and> (execute (Suc n) h (Sequence children) st = Inr r
        \<longleftrightarrow> runsSerially (execute n h) children st r)
   \<and> (execute (Suc n) h (Parallel children) st = Inr r
        \<longleftrightarrow> runsSerially (execute n h) children st r)"
proof -
  have "execute n h (Parallel children) st = execute n h (Sequence children) st"
    by (cases n) (simp_all add: evalParallel_evalSequence)
  then show ?thesis
    by (simp add: evalParallel_evalSequence evalSequence_runsSerially)
qed

text \<open>Three children, the second of which returns false: both statements return false and
  the third child, which would clear relation 0, has not run.\<close>

theorem parallel_is_sequence_witness:
  "execute (Suc 2) sampleHost (Parallel [Clear 3, Exit True_Node, Clear 0])
     (sampleEngine, sampleContext) = Inr (0, sampleEngine, sampleContext)
   \<and> execute (Suc 2) sampleHost (Sequence [Clear 3, Exit True_Node, Clear 0])
     (sampleEngine, sampleContext) = Inr (0, sampleEngine, sampleContext)
   \<and> runsSerially (execute 2 sampleHost) [Clear 3, Exit True_Node, Clear 0]
     (sampleEngine, sampleContext) (0, sampleEngine, sampleContext)"
proof -
  have c3: "evalClear sampleHost 3 (sampleEngine, sampleContext) = Inr (1, sampleEngine, sampleContext)"
    by (simp add: evalClear_def getRelationHandle_def bindR_def fromBool_def sampleEngine_def
          sampleHost_def)
  have "execute (Suc 2) sampleHost (Sequence [Clear 3, Exit True_Node, Clear 0])
          (sampleEngine, sampleContext) = Inr (0, sampleEngine, sampleContext)"
    by (simp add: numeral_2_eq_2 c3 bindR_def fromBool_def toBool_def)
  then show ?thesis
    using parallel_is_sequence
            [of 2 sampleHost "[Clear 3, Exit True_Node, Clear 0]"
                "(sampleEngine, sampleContext)" "(0, sampleEngine, sampleContext)"]
    by simp
qed

section \<open>Loop\<close>

text \<open>
  C2, as stated, fails: a \<open>Loop\<close> entered with the iteration counter at 5 returns with the
  counter at 0. The counter is reset on entry and reset again on exit; its former value
  is not kept anywhere.
\<close>

theorem loop_counter_counterexample:
  "execute 3 sampleHost (Loop (Exit True_Node)) (sampleEngine\<lparr>iteration := 5\<rparr>, sampleContext)
     = Inr (1, sampleEngine\<lparr>iteration := 0\<rparr>, sampleContext)"
  by (simp add: numeral_3_eq_3 evalLoop_def bindR_def fromBool_def toBool_def
        resetIterationNumber_def)

lemma whileLoop_passes:
  "whileLoop k body st = Inr st' \<Longrightarrow>
   \<exists>m<k. whileLoop (Suc m) body st = Inr st' \<and> whileLoop m body st = Inl OutOfFuel"
proof (induction k arbitrary: st)
  case 0
  then show ?case by simp
next
  case (Suc k)
  from Suc.prems obtain v st1 where b: "body st = Inr (v, st1)"
    by (cases "body st") (auto simp: bindR_def)
  show ?case
  proof (cases "toBool v")
    case False
    with Suc.prems b have "whileLoop (Suc 0) body st = Inr st'"
      by (simp add: bindR_def)
    then show ?thesis by (intro exI [of _ 0]) simp
  next
    case True
    with Suc.prems b
    have "whileLoop k body (incIterationNumber (fst st1), snd st1) = Inr st'"
      by (simp add: bindR_def)
    from Suc.IH [OF this] obtain m where m: "m < k"
      "whileLoop (Suc m) body (incIterationNumber (fst st1), snd st1) = Inr st'"
      "whileLoop m body (incIterationNumber (fst st1), snd st1) = Inl OutOfFuel"
      by blast
    with b True show ?thesis
      by (intro exI [of _ "Suc m"]) (simp add: bindR_def)
  qed
qed

lemma whileLoop_counter:
  assumes keeps: "\<And>s v s'. body s = Inr (v, s') \<Longrightarrow> iteration (fst s') = iteration (fst s)"
  shows "whileLoop (Suc m) body st = Inr st' \<Longrightarrow> whileLoop m body st = Inl OutOfFuel \<Longrightarrow>
         iteration (fst st') = iteration (fst st) + of_nat m"
proof (induction m arbitrary: st)
  case 0
  then show ?case
    by (cases "body st") (auto simp: bindR_def dest: keeps split: if_splits)
next
  case (Suc m)
  from Suc.prems(1) obtain v st1 where b: "body st = Inr (v, st1)"
    by (cases "body st") (auto simp: bindR_def)
  from Suc.prems(2) b have t: "toBool v"
    by (cases "toBool v") (simp_all add: bindR_def)
  let ?st = "(incIterationNumber (fst st1), snd st1)"
  from Suc.prems b t have "whileLoop (Suc m) body ?st = Inr st'" "whileLoop m body ?st = Inl OutOfFuel"
    by (simp_all add: bindR_def)
  from Suc.IH [OF this] keeps [OF b] show ?case
    by (simp add: incIterationNumber_def)
qed

text \<open>
  C2, amended. A \<open>Loop\<close> that returns, returns true with the iteration counter at 0. It
  has run its body from the entry state with the counter reset to 0, for \<open>m + 1\<close> passes
  (\<open>m\<close> that returned true, each followed by one increment of the counter, and a last one
  that returned false), and the state it returns is the state after the last pass with
  the counter reset to 0. When the body itself leaves the counter as it finds it, the
  counter is \<open>m\<close> after the last pass.
\<close>

theorem loop_counter:
  assumes "execute (Suc n) h (Loop child) (eng, ctxt) = Inr (v, eng', ctxt')"
  shows "v = 1 \<and> iteration eng' = 0
       \<and> (\<exists>m st1. m < n
            \<and> whileLoop (Suc m) (execute n h child) (eng\<lparr>iteration := 0\<rparr>, ctxt) = Inr st1
            \<and> whileLoop m (execute n h child) (eng\<lparr>iteration := 0\<rparr>, ctxt) = Inl OutOfFuel
            \<and> eng' = (fst st1)\<lparr>iteration := 0\<rparr> \<and> ctxt' = snd st1
            \<and> ((\<forall>s r s'. execute n h child s = Inr (r, s') \<longrightarrow> iteration (fst s') = iteration (fst s))
                 \<longrightarrow> iteration (fst st1) = of_nat m))"
proof -
  let ?body = "execute n h child"
  let ?st0 = "(eng\<lparr>iteration := 0\<rparr>, ctxt)"
  from assms
  have e: "bindR (whileLoop n ?body ?st0)
             (\<lambda>st1. Inr (fromBool True, (fst st1)\<lparr>iteration := 0\<rparr>, snd st1)) = Inr (v, eng', ctxt')"
    by (simp add: evalLoop_def resetIterationNumber_def)
  then obtain st1 where w: "whileLoop n ?body ?st0 = Inr st1"
    by (cases "whileLoop n ?body ?st0") (simp_all add: bindR_def)
  with e have r: "v = 1" "eng' = (fst st1)\<lparr>iteration := 0\<rparr>" "ctxt' = snd st1"
    by (simp_all add: bindR_def fromBool_def)
  from whileLoop_passes [OF w] obtain m where m: "m < n"
    "whileLoop (Suc m) ?body ?st0 = Inr st1" "whileLoop m ?body ?st0 = Inl OutOfFuel"
    by blast
  have c: "(\<forall>s r s'. ?body s = Inr (r, s') \<longrightarrow> iteration (fst s') = iteration (fst s))
          \<longrightarrow> iteration (fst st1) = of_nat m"
  proof
    assume "\<forall>s r s'. ?body s = Inr (r, s') \<longrightarrow> iteration (fst s') = iteration (fst s)"
    then have "\<And>s v s'. ?body s = Inr (v, s') \<Longrightarrow> iteration (fst s') = iteration (fst s)"
      by blast
    from whileLoop_counter [of ?body, OF this m(2) m(3)] show "iteration (fst st1) = of_nat m"
      by simp
  qed
  have "iteration eng' = 0"
    using r(2) by simp
  moreover have "\<exists>m st1. m < n
            \<and> whileLoop (Suc m) ?body ?st0 = Inr st1
            \<and> whileLoop m ?body ?st0 = Inl OutOfFuel
            \<and> eng' = (fst st1)\<lparr>iteration := 0\<rparr> \<and> ctxt' = snd st1
            \<and> ((\<forall>s r s'. ?body s = Inr (r, s') \<longrightarrow> iteration (fst s') = iteration (fst s))
                 \<longrightarrow> iteration (fst st1) = of_nat m)"
    using m r(2,3) c by blast
  ultimately show ?thesis
    using r(1) by blast
qed

text \<open>A body that returns true twice and then false: entered with the counter at 5, the
  loop ends its passes with the counter at 2 and returns with the counter at 0.\<close>

theorem loop_counter_witness:
  "execute (Suc 3) sampleHost (Loop (Exit (Constraint GE AutoIncrement (NumericConstant 2))))
     (sampleEngine\<lparr>iteration := 5\<rparr>, sampleContext)
     = Inr (1, sampleEngine\<lparr>iteration := 0, counter := 3\<rparr>, sampleContext)
   \<and> iteration (sampleEngine\<lparr>iteration := 0, counter := 3\<rparr>) = 0
   \<and> whileLoop (Suc 2) (execute 3 sampleHost (Exit (Constraint GE AutoIncrement (NumericConstant 2))))
       (sampleEngine\<lparr>iteration := 0\<rparr>, sampleContext)
     = Inr (sampleEngine\<lparr>iteration := 2, counter := 3\<rparr>, sampleContext)"
proof -
  have run: "execute (Suc 3) sampleHost (Loop (Exit (Constraint GE AutoIncrement (NumericConstant 2))))
     (sampleEngine\<lparr>iteration := 5\<rparr>, sampleContext)
     = Inr (1, sampleEngine\<lparr>iteration := 0, counter := 3\<rparr>, sampleContext)"
    by (simp add: numeral_3_eq_3 evalLoop_def evalConstraint_def bindR_def fromBool_def toBool_def
          resetIterationNumber_def incIterationNumber_def signedLessEq_def sampleEngine_def)
  have passes: "whileLoop (Suc 2) (execute 3 sampleHost (Exit (Constraint GE AutoIncrement (NumericConstant 2))))
       (sampleEngine\<lparr>iteration := 0\<rparr>, sampleContext)
     = Inr (sampleEngine\<lparr>iteration := 2, counter := 3\<rparr>, sampleContext)"
    by (simp add: numeral_2_eq_2 numeral_3_eq_3 evalConstraint_def bindR_def fromBool_def toBool_def
          incIterationNumber_def signedLessEq_def sampleEngine_def)
  from loop_counter [OF run] run passes show ?thesis by blast
qed

section \<open>Substrings\<close>

text \<open>Evaluation with a bound written as a numeral, and the fields of the sample engine.\<close>

lemmas execute_at_numeral = execute.simps(2) [of "pred_numeral k" for k, folded numeral_eq_Suc]

lemma sampleEngine_fields:
  "symbolTable sampleEngine = [''hello'', ''hi'']"
  "cerr sampleEngine = []"
  "iteration sampleEngine = 0"
  "counter sampleEngine = 0"
  "profileEnabled sampleEngine = False"
  "relations sampleEngine =
        [Relation ''r'' [[1, 10], [1, 7], [2, 3]],
         LLMQueryRelation ''R_5coref4java8Callable16getBelongedClass''
           \<lparr>internalRelation = [], dataLoaded = False\<rparr>,
         Relation ''R_5coref4java8Callable7getName'' [[0, 5]],
         Relation ''m'' [],
         Relation ''r3'' [[1, 2, 3], [1, 4, 5], [2, 2, 2]],
         Relation ''p'' [[8, 1, 1], [8, 2, 5]]]"
  by (simp_all add: sampleEngine_def)

text \<open>
  C9, as stated, fails: \<open>SUBSTR("hello", 1, 10)\<close> is the symbol of \<open>"ello"\<close> and writes
  no warning. The result is neither a substring of length 10 nor the empty symbol after
  a warning: a length that reaches beyond the end of the string is cut to what is left.
\<close>

theorem substr_counterexample:
  "execute 2 sampleHost
     (IntrinsicOperator SUBSTR [StringConstant 0, NumericConstant 1, NumericConstant 10])
     (sampleEngine, sampleContext)
     = Inr (2, sampleEngine\<lparr>symbolTable := [''hello'', ''hi'', ''ello'']\<rparr>, sampleContext)
   \<and> cerr (sampleEngine\<lparr>symbolTable := [''hello'', ''hi'', ''ello'']\<rparr>) = []"
  by (simp add: execute_at_numeral execIntrinsic_def evalSUBSTR_def EVAL_CHILD_def getChild_def
        bindR_def decode_def substr_def returnEncoded_def encode_def sampleEngine_def)

lemma unat_index: "k < 2 ^ 64 \<Longrightarrow> unat (of_nat k :: RamDomain) = k"
  by (simp add: unat_of_nat)

lemma takeWhile_index: "s \<in> set tbl \<Longrightarrow> length (takeWhile (\<lambda>x. x \<noteq> s) tbl) < length tbl"
  by (induction tbl) auto

lemma decode_encode:
  assumes "length tbl < 2 ^ 64"
  shows "decode (snd (encode tbl s)) (fst (encode tbl s)) = Inr s"
proof (cases "s \<in> set tbl")
  case True
  let ?k = "length (takeWhile (\<lambda>x. x \<noteq> s) tbl)"
  from True have k: "?k < length tbl"
    by (rule takeWhile_index)
  then have "tbl ! ?k = s"
    using nth_length_takeWhile [of "\<lambda>x. x \<noteq> s" tbl] by simp
  moreover from k assms have "unat (of_nat ?k :: RamDomain) = ?k"
    by (intro unat_index) simp
  ultimately show ?thesis
    using True k by (simp add: encode_def decode_def)
next
  case False
  from assms have "unat (of_nat (length tbl) :: RamDomain) = length tbl"
    by (rule unat_index)
  with False show ?thesis
    by (simp add: encode_def decode_def)
qed

lemma returnEncoded_result:
  "\<exists>r eng'. returnEncoded s st = Inr (r, eng', snd st)
     \<and> (length (symbolTable (fst st)) < 2 ^ 64 \<longrightarrow> decode (symbolTable eng') r = Inr s)
     \<and> cerr eng' = cerr (fst st)"
  by (simp add: returnEncoded_def decode_encode)

lemma take_clipped: "take n xs = take (min n (length xs)) xs"
  by (cases "n \<le> length xs") (simp_all add: min_def)

text \<open>
  C9, amended. When the operands of \<open>SUBSTR\<close> evaluate to the symbol of \<open>str\<close>, to
  \<open>idx\<close> and to \<open>len\<close> (both read as unsigned): if \<open>idx\<close> is at most the length of
  \<open>str\<close>, the result is the symbol of the substring of \<open>str\<close> that starts at \<open>idx\<close> and
  has \<open>len\<close> characters or as many as are left, and nothing is written to the diagnostic
  channel; otherwise the warning is written and the result is the symbol of the empty
  string. In both cases the evaluation returns. (The symbol decodes to the string as long
  as the table has fewer than \<open>2^64\<close> entries.)
\<close>

theorem substr_operator:
  assumes "execute n h x st = Inr (symbol, st1)"
    and "decode (symbolTable (fst st1)) symbol = Inr str"
    and "execute n h y st1 = Inr (idx, st2)"
    and "execute n h z st2 = Inr (len, st3)"
  shows "\<exists>r eng'.
           execute (Suc n) h (IntrinsicOperator SUBSTR [x, y, z]) st = Inr (r, eng', snd st3)
         \<and> (length (symbolTable (fst st3)) < 2 ^ 64 \<longrightarrow>
              decode (symbolTable eng') r
                = Inr (if unat idx \<le> length str
                       then take (min (unat len) (length str - unat idx)) (drop (unat idx) str)
                       else []))
         \<and> cerr eng'
             = (if unat idx \<le> length str then cerr (fst st3)
                else cerr (fst st3) @ substrWarning str idx len)"
proof (cases "unat idx \<le> length str")
  case True
  let ?sub = "take (unat len) (drop (unat idx) str)"
  from True assms
  have "execute (Suc n) h (IntrinsicOperator SUBSTR [x, y, z]) st = returnEncoded ?sub st3"
    by (simp add: execIntrinsic_def evalSUBSTR_def EVAL_CHILD_def getChild_def bindR_def substr_def)
  moreover have "?sub = take (min (unat len) (length str - unat idx)) (drop (unat idx) str)"
    using take_clipped [of "unat len" "drop (unat idx) str"] by simp
  ultimately show ?thesis
    using True returnEncoded_result [of ?sub st3] by simp
next
  case False
  let ?st = "((fst st3)\<lparr>cerr := cerr (fst st3) @ substrWarning str idx len\<rparr>, snd st3)"
  from False assms
  have "execute (Suc n) h (IntrinsicOperator SUBSTR [x, y, z]) st = returnEncoded [] ?st"
    by (simp add: execIntrinsic_def evalSUBSTR_def EVAL_CHILD_def getChild_def bindR_def substr_def)
  then show ?thesis
    using False returnEncoded_result [of "[]" ?st] by simp
qed

text \<open>\<open>SUBSTR("hi", 5, 2)\<close>: the empty symbol and the warning.\<close>

theorem substr_operator_witness:
  "\<exists>r eng'.
     execute (Suc 1) sampleHost
       (IntrinsicOperator SUBSTR [StringConstant 1, NumericConstant 5, NumericConstant 2])
       (sampleEngine, sampleContext) = Inr (r, eng', sampleContext)
   \<and> decode (symbolTable eng') r = Inr []
   \<and> cerr eng' = ''warning: wrong index position provided by substr(\"hi\",5,2) functor.'' @ [CHR 0x0A]"
proof -
  have x: "execute 1 sampleHost (StringConstant 1) (sampleEngine, sampleContext)
             = Inr (1, sampleEngine, sampleContext)"
    by simp
  have d: "decode (symbolTable (fst (sampleEngine, sampleContext))) 1 = Inr ''hi''"
    by (simp add: decode_def sampleEngine_fields)
  have y: "execute 1 sampleHost (NumericConstant 5) (sampleEngine, sampleContext)
             = Inr (5, sampleEngine, sampleContext)"
    by simp
  have z: "execute 1 sampleHost (NumericConstant 2) (sampleEngine, sampleContext)
             = Inr (2, sampleEngine, sampleContext)"
    by simp
  have w: "substrWarning ''hi'' 5 2
             = ''warning: wrong index position provided by substr(\"hi\",5,2) functor.'' @ [CHR 0x0A]"
    by (simp add: substrWarning_def showInt_def int32_t_def)
  show ?thesis
    using substr_operator [OF x d y z] by (simp add: sampleEngine_fields w)
qed

section \<open>The relation \<open>R_5coref4java8Callable16getBelongedClass\<close>\<close>

text \<open>
  C6. When the relation handle of an \<open>Insert\<close> has the name
  \<open>R_5coref4java8Callable16getBelongedClass\<close>, the \<open>Insert\<close> returns true and leaves the
  engine and the context as they are: no relation changes, and the expressions of the
  tuple are not evaluated. An \<open>EmptinessCheck\<close> on the relation of that name (which
  \<open>createRelation\<close> makes an adapter) returns what \<open>isEmpty\<close> of the adapter answers,
  that is, true when the data is not loaded or the internal relation is empty.
\<close>

theorem belonged_class_relation:
  assumes "getRelationHandle eng relation = Inr rel"
    and "getName rel = ''R_5coref4java8Callable16getBelongedClass''"
  shows "execute (Suc n) h (Insert arity relation superInst) (eng, ctxt) = Inr (1, eng, ctxt)
       \<and> (\<forall>name w. rel = LLMQueryRelation name w \<longrightarrow>
            isEmpty h eng w = Inr (\<not> dataLoaded w \<or> rel_empty h (internalRelation w), w)
          \<and> execute (Suc n) h (EmptinessCheck relation) (eng, ctxt)
              = Inr (fromBool (\<not> dataLoaded w \<or> rel_empty h (internalRelation w)), eng, ctxt))"
proof -
  from assms(1) have same: "(relations eng)[relation := rel] = relations eng"
    by (auto simp: getRelationHandle_def split: if_splits)
  have "execute (Suc n) h (Insert arity relation superInst) (eng, ctxt) = Inr (1, eng, ctxt)"
    using assms by (simp add: execInsert_def bindR_def fromBool_def)
  moreover have "\<forall>name w. rel = LLMQueryRelation name w \<longrightarrow>
            isEmpty h eng w = Inr (\<not> dataLoaded w \<or> rel_empty h (internalRelation w), w)
          \<and> execute (Suc n) h (EmptinessCheck relation) (eng, ctxt)
              = Inr (fromBool (\<not> dataLoaded w \<or> rel_empty h (internalRelation w)), eng, ctxt)"
    using assms same by (auto simp: evalEmptinessCheck_def isEmpty_def bindR_def)
  ultimately show ?thesis by simp
qed

theorem belonged_class_relation_witness:
  "execute (Suc 1) sampleHost
     (Insert 2 1 (SuperInstruction [0, 0] [0, 0] [] [] [(0, NumericConstant 4), (1, AutoIncrement)] []))
     (sampleEngine, sampleContext) = Inr (1, sampleEngine, sampleContext)
   \<and> execute (Suc 1) sampleHost (EmptinessCheck 1) (sampleEngine, sampleContext)
     = Inr (1, sampleEngine, sampleContext)"
proof -
  have r: "getRelationHandle sampleEngine 1
             = Inr (LLMQueryRelation ''R_5coref4java8Callable16getBelongedClass''
                     \<lparr>internalRelation = [], dataLoaded = False\<rparr>)"
    by (simp add: getRelationHandle_def sampleEngine_fields)
  show ?thesis
    using belonged_class_relation [OF r, of 1 sampleHost 2 _ sampleContext]
    by (simp add: fromBool_def)
qed

section \<open>The lazy load of the adapter\<close>

lemma adapterAfter_bind:
  "adapterAfter (bindR m (\<lambda>w'. Inr (f w', w'))) = m"
  by (cases m) (simp_all add: adapterAfter_def bindR_def)

lemma loadDataIfNeeded_loaded: "dataLoaded w \<Longrightarrow> loadDataIfNeeded h eng w = Inr w"
  by (simp add: loadDataIfNeeded_def)

lemma loadDataIfNeeded_populates:
  assumes "\<not> dataLoaded w" and "relToIdMap eng ''R_5coref4java8Callable7getName'' = Some nameID"
    and "loadDataIfNeeded h eng w = Inr w'"
  shows "dataLoaded w'
       \<and> (\<exists>db. database h = Some db
             \<and> insertPairs (classElementIds classNames db) h (methodElementIds methodSignatures db)
                 (internalRelation w) = Inr (internalRelation w'))"
  using assms
  by (auto simp: loadDataIfNeeded_def bindR_def split: sum.splits option.splits)

text \<open>
  C10. \<open>isEmpty\<close> answers true whenever \<open>dataLoaded\<close> is false, whatever the database
  holds, and leaves the adapter as it is (it does not load). Each of \<open>begin\<close>, \<open>end\<close>,
  \<open>insert\<close>, \<open>contains\<close>, \<open>size\<close>, \<open>printStats\<close>, \<open>getIndexOrder\<close> and
  \<open>createView\<close> leaves the adapter as \<open>loadDataIfNeeded\<close> does, which does nothing once
  the data is loaded. \<open>purge\<close> purges the internal relation and sets \<open>dataLoaded\<close> to
  false, so that the next load that returns, with the relation
  \<open>R_5coref4java8Callable7getName\<close> registered, has inserted the pairs of the database
  into the purged relation and set \<open>dataLoaded\<close>.
\<close>

theorem adapter_lazy_load:
  "(\<not> dataLoaded w \<longrightarrow> isEmpty h eng w = Inr (True, w))
   \<and> adapterAfter (isEmpty h eng w) = Inr w
   \<and> adapterAfter (begin_rel h eng w) = loadDataIfNeeded h eng w
   \<and> adapterAfter (end_rel h eng w) = loadDataIfNeeded h eng w
   \<and> adapterAfter (insert_rel h eng tuple w) = loadDataIfNeeded h eng w
   \<and> adapterAfter (contains_rel h eng tuple w) = loadDataIfNeeded h eng w
   \<and> adapterAfter (size_rel h eng w) = loadDataIfNeeded h eng w
   \<and> adapterAfter (printStats h eng out w) = loadDataIfNeeded h eng w
   \<and> adapterAfter (getIndexOrder h eng idx w) = loadDataIfNeeded h eng w
   \<and> adapterAfter (createView h eng indexPos w) = loadDataIfNeeded h eng w
   \<and> (dataLoaded w \<longrightarrow> loadDataIfNeeded h eng w = Inr w)
   \<and> (\<exists>p. purge h eng w = Inr ((), p) \<and> \<not> dataLoaded p
          \<and> internalRelation p = rel_purge h (internalRelation w)
          \<and> (\<forall>nameID w'. relToIdMap eng ''R_5coref4java8Callable7getName'' = Some nameID
                \<longrightarrow> loadDataIfNeeded h eng p = Inr w'
                \<longrightarrow> dataLoaded w'
                  \<and> (\<exists>db. database h = Some db
                        \<and> insertPairs (classElementIds classNames db) h
                            (methodElementIds methodSignatures db)
                            (rel_purge h (internalRelation w)) = Inr (internalRelation w'))))"
proof -
  let ?p = "\<lparr>internalRelation = rel_purge h (internalRelation w), dataLoaded = False\<rparr>"
  have purged: "\<forall>nameID w'. relToIdMap eng ''R_5coref4java8Callable7getName'' = Some nameID
                \<longrightarrow> loadDataIfNeeded h eng ?p = Inr w'
                \<longrightarrow> dataLoaded w'
                  \<and> (\<exists>db. database h = Some db
                        \<and> insertPairs (classElementIds classNames db) h
                            (methodElementIds methodSignatures db)
                            (rel_purge h (internalRelation w)) = Inr (internalRelation w'))"
    using loadDataIfNeeded_populates [of ?p eng _ h] by simp
  have "\<exists>p. purge h eng w = Inr ((), p) \<and> \<not> dataLoaded p
          \<and> internalRelation p = rel_purge h (internalRelation w)
          \<and> (\<forall>nameID w'. relToIdMap eng ''R_5coref4java8Callable7getName'' = Some nameID
                \<longrightarrow> loadDataIfNeeded h eng p = Inr w'
                \<longrightarrow> dataLoaded w'
                  \<and> (\<exists>db. database h = Some db
                        \<and> insertPairs (classElementIds classNames db) h
                            (methodElementIds methodSignatures db)
                            (rel_purge h (internalRelation w)) = Inr (internalRelation w')))"
    using purged by (intro exI [of _ ?p]) (simp add: purge_def)
  then show ?thesis
    by (simp add: isEmpty_def begin_rel_def end_rel_def insert_rel_def contains_rel_def
          size_rel_def printStats_def getIndexOrder_def createView_def adapterAfter_bind
          loadDataIfNeeded_loaded)
       (simp add: adapterAfter_def)
qed

lemma classElementIds_sample: "classElementIds classNames sampleDatabase = [7]"
  by (simp add: classNames_def sampleDatabase_def)

lemma methodElementIds_sample: "methodElementIds methodSignatures sampleDatabase = [9]"
  by (simp add: methodSignatures_def sampleDatabase_def)

lemma load_sample:
  "loadDataIfNeeded sampleHost sampleEngine \<lparr>internalRelation = [], dataLoaded = False\<rparr>
     = Inr \<lparr>internalRelation = [[7, 9]], dataLoaded = True\<rparr>"
proof -
  have db: "database sampleHost = Some sampleDatabase"
    and scan: "rel_scan sampleHost [[0, 5]] = [[0, 5]]"
    and ins: "rel_insert sampleHost [7, 9] [] = [[7, 9]]"
    by (simp_all add: sampleHost_def)
  have m: "relToIdMap sampleEngine ''R_5coref4java8Callable7getName'' = Some 2"
    by (simp add: sampleEngine_def)
  have r: "getRelationHandle sampleEngine 2 = Inr (Relation ''R_5coref4java8Callable7getName'' [[0, 5]])"
    by (simp add: getRelationHandle_def sampleEngine_fields)
  show ?thesis
    by (simp add: loadDataIfNeeded_def m r db scan ins bindR_def decode_def sampleEngine_fields
          classElementIds_sample methodElementIds_sample)
qed

text \<open>On the sample database, which has one class and one method: an adapter that is not
  loaded is empty for \<open>isEmpty\<close>, \<open>size\<close> loads the pair, and \<open>purge\<close> unloads it.\<close>

theorem adapter_lazy_load_witness:
  "isEmpty sampleHost sampleEngine \<lparr>internalRelation = [], dataLoaded = False\<rparr>
     = Inr (True, \<lparr>internalRelation = [], dataLoaded = False\<rparr>)
   \<and> adapterAfter (size_rel sampleHost sampleEngine \<lparr>internalRelation = [], dataLoaded = False\<rparr>)
     = Inr \<lparr>internalRelation = [[7, 9]], dataLoaded = True\<rparr>
   \<and> purge sampleHost sampleEngine \<lparr>internalRelation = [[7, 9]], dataLoaded = True\<rparr>
     = Inr ((), \<lparr>internalRelation = [], dataLoaded = False\<rparr>)"
proof -
  have p: "purge sampleHost sampleEngine \<lparr>internalRelation = [[7, 9]], dataLoaded = True\<rparr>
     = Inr ((), \<lparr>internalRelation = [], dataLoaded = False\<rparr>)"
    by (simp add: purge_def sampleHost_def)
  show ?thesis
    using adapter_lazy_load
            [of "\<lparr>internalRelation = [], dataLoaded = False\<rparr>" sampleHost sampleEngine]
          load_sample p
    by simp
qed

section \<open>Existence checks\<close>

lemma storeColumn_Inr:
  "storeColumn t col v = Inr t' \<longleftrightarrow> col < length t \<and> t' = t[col := v]"
  by (auto simp: storeColumn_def)

lemma setTupleElements_frame:
  "setTupleElements es ctxt t = Inr t' \<Longrightarrow>
   length t' = length t \<and> (\<forall>i. i \<notin> fst ` set es \<longrightarrow> t' ! i = t ! i)"
proof (induction es arbitrary: t)
  case Nil
  then show ?case by simp
next
  case (Cons e es)
  from Cons.prems obtain v where
    t': "setTupleElements es ctxt (t[fst e := v]) = Inr t'" and c: "fst e < length t"
    by (auto simp: bindR_def storeColumn_Inr split: sum.splits)
  from Cons.IH [OF t'] show ?case by auto
qed

lemma setExprs_frame:
  "setExprs es ex t st = Inr (t', st') \<Longrightarrow>
   length t' = length t \<and> (\<forall>i. i \<notin> fst ` set es \<longrightarrow> t' ! i = t ! i)"
proof (induction es arbitrary: t st)
  case Nil
  then show ?case by simp
next
  case (Cons e es)
  from Cons.prems obtain v st1 where
    t': "setExprs es ex (t[fst e := v]) st1 = Inr (t', st')" and c: "fst e < length t"
    by (auto simp: bindR_def storeColumn_Inr split: sum.splits)
  from Cons.IH [OF t'] show ?case by auto
qed

lemma setTupleElementsBoth_frame:
  "setTupleElementsBoth es ctxt (l, h) = Inr (l', h') \<Longrightarrow>
   length l' = length l \<and> length h' = length h
   \<and> (\<forall>i. i \<in> fst ` set es \<or> l ! i = h ! i \<longrightarrow> l' ! i = h' ! i)
   \<and> (\<forall>i. i \<notin> fst ` set es \<longrightarrow> l' ! i = l ! i \<and> h' ! i = h ! i)"
proof (induction es arbitrary: l h)
  case Nil
  then show ?case by simp
next
  case (Cons e es)
  from Cons.prems obtain v where
    r: "setTupleElementsBoth es ctxt (l[fst e := v], h[fst e := v]) = Inr (l', h')"
    and c: "fst e < length l" "fst e < length h"
    by (auto simp: bindR_def storeColumn_Inr split: sum.splits)
  have "\<forall>i. i \<in> fst ` set (e # es) \<or> l ! i = h ! i \<longrightarrow>
          i \<in> fst ` set es \<or> l[fst e := v] ! i = h[fst e := v] ! i"
    using c by (auto simp: nth_list_update)
  with Cons.IH [OF r] show ?case
    by (auto simp: nth_list_update)
qed

lemma setExprsBoth_frame:
  "setExprsBoth es ex (l, h) st = Inr ((l', h'), st') \<Longrightarrow>
   length l' = length l \<and> length h' = length h
   \<and> (\<forall>i. i \<in> fst ` set es \<or> l ! i = h ! i \<longrightarrow> l' ! i = h' ! i)
   \<and> (\<forall>i. i \<notin> fst ` set es \<longrightarrow> l' ! i = l ! i \<and> h' ! i = h ! i)"
proof (induction es arbitrary: l h st)
  case Nil
  then show ?case by simp
next
  case (Cons e es)
  from Cons.prems obtain v st1 where
    r: "setExprsBoth es ex (l[fst e := v], h[fst e := v]) st1 = Inr ((l', h'), st')"
    and c: "fst e < length l" "fst e < length h"
    by (auto simp: bindR_def storeColumn_Inr split: sum.splits)
  have "\<forall>i. i \<in> fst ` set (e # es) \<or> l ! i = h ! i \<longrightarrow>
          i \<in> fst ` set es \<or> l[fst e := v] ! i = h[fst e := v] ! i"
    using c by (auto simp: nth_list_update)
  with Cons.IH [OF r] show ?case
    by (auto simp: nth_list_update)
qed

lemma pointTuple_columns:
  assumes "pointTuple ex arity superInfo st = Inr (tuple, st1)"
  shows "length tuple = arity
       \<and> (\<forall>i. i \<notin> fixedColumns superInfo \<longrightarrow> tuple ! i = first superInfo ! i)"
proof -
  from assms obtain t1 where
    len: "length (first superInfo) = arity"
    and a: "setTupleElements (tupleFirst superInfo) (snd st) (first superInfo) = Inr t1"
    and b: "setExprs (exprFirst superInfo) ex t1 st = Inr (tuple, st1)"
    by (auto simp: pointTuple_def TUPLE_COPY_FROM_def bindR_def split: sum.splits if_splits)
  from setTupleElements_frame [OF a] setExprs_frame [OF b] len show ?thesis
    by (auto simp: fixedColumns_def)
qed

lemma partialBounds_columns:
  assumes "partialBounds ex arity superInfo st = Inr ((lo, hi), st1)"
  shows "length lo = arity \<and> length hi = arity
       \<and> (\<forall>i. i \<in> fixedColumns superInfo \<longrightarrow> lo ! i = hi ! i)
       \<and> (\<forall>i. i \<notin> fixedColumns superInfo \<longrightarrow>
             lo ! i = first superInfo ! i \<and> hi ! i = second superInfo ! i)"
proof -
  from assms obtain l1 h1 where
    len: "length (first superInfo) = arity" "length (second superInfo) = arity"
    and a: "setTupleElementsBoth (tupleFirst superInfo) (snd st) (first superInfo, second superInfo)
              = Inr (l1, h1)"
    and b: "setExprsBoth (exprFirst superInfo) ex (l1, h1) st = Inr ((lo, hi), st1)"
    by (auto simp: partialBounds_def TUPLE_COPY_FROM_def bindR_def split: sum.splits if_splits)
  from setTupleElementsBoth_frame [OF a] setExprsBoth_frame [OF b] len show ?thesis
    by (auto simp: fixedColumns_def)
qed

text \<open>
  The search tuples column by column. Writing \<open>(c, v)\<close> for the assignment \<open>t[c] = v\<close>,
  a tuple after a list of assignments holds in column \<open>c\<close> the value of the last
  assignment to \<open>c\<close>, and what it held before where there is none.
\<close>

lemma writes_length: "length (foldl (\<lambda>t w. t[fst w := snd w]) t ws) = length t"
  by (induction ws arbitrary: t) simp_all

lemma writes_nth:
  "c < length t \<Longrightarrow>
   foldl (\<lambda>t w. t[fst w := snd w]) t ws ! c
     = (case map_of (rev ws) c of Some v \<Rightarrow> v | None \<Rightarrow> t ! c)"
proof (induction ws arbitrary: t)
  case Nil
  then show ?case by simp
next
  case (Cons w ws)
  then show ?case
    by (cases w) (simp add: map_add_def nth_list_update split: option.splits)
qed

lemma setTupleElements_values:
  "setTupleElements es ctxt t = Inr t' \<Longrightarrow>
   \<exists>vs. contextValues es ctxt = Inr vs \<and> length vs = length es
       \<and> t' = foldl (\<lambda>t w. t[fst w := snd w]) t (zip (map fst es) vs)"
proof (induction es arbitrary: t)
  case Nil
  then show ?case by simp
next
  case (Cons e es)
  from Cons.prems obtain v where
    v: "readTupleElement ctxt (fst (snd e)) (snd (snd e)) = Inr v"
    and t': "setTupleElements es ctxt (t[fst e := v]) = Inr t'"
    by (auto simp: bindR_def storeColumn_Inr split: sum.splits)
  from Cons.IH [OF t'] obtain vs where
    "contextValues es ctxt = Inr vs" "length vs = length es"
    "t' = foldl (\<lambda>t w. t[fst w := snd w]) (t[fst e := v]) (zip (map fst es) vs)"
    by blast
  with v show ?case
    by (intro exI [of _ "v # vs"]) (simp add: bindR_def)
qed

lemma setExprs_values:
  "setExprs es ex t st = Inr (t', st') \<Longrightarrow>
   \<exists>vs. evalInOrder ex (map snd es) st = Inr (vs, st') \<and> length vs = length es
       \<and> t' = foldl (\<lambda>t w. t[fst w := snd w]) t (zip (map fst es) vs)"
proof (induction es arbitrary: t st)
  case Nil
  then show ?case by simp
next
  case (Cons e es)
  from Cons.prems obtain v st1 where
    v: "ex (snd e) st = Inr (v, st1)"
    and t': "setExprs es ex (t[fst e := v]) st1 = Inr (t', st')"
    by (auto simp: bindR_def storeColumn_Inr split: sum.splits)
  from Cons.IH [OF t'] obtain vs where
    "evalInOrder ex (map snd es) st1 = Inr (vs, st')" "length vs = length es"
    "t' = foldl (\<lambda>t w. t[fst w := snd w]) (t[fst e := v]) (zip (map fst es) vs)"
    by blast
  with v show ?case
    by (intro exI [of _ "v # vs"]) (simp add: bindR_def)
qed

lemma setTupleElementsBoth_values:
  "setTupleElementsBoth es ctxt (l, h) = Inr (l', h') \<Longrightarrow>
   \<exists>vs. contextValues es ctxt = Inr vs \<and> length vs = length es
       \<and> l' = foldl (\<lambda>t w. t[fst w := snd w]) l (zip (map fst es) vs)
       \<and> h' = foldl (\<lambda>t w. t[fst w := snd w]) h (zip (map fst es) vs)"
proof (induction es arbitrary: l h)
  case Nil
  then show ?case by simp
next
  case (Cons e es)
  from Cons.prems obtain v where
    v: "readTupleElement ctxt (fst (snd e)) (snd (snd e)) = Inr v"
    and r: "setTupleElementsBoth es ctxt (l[fst e := v], h[fst e := v]) = Inr (l', h')"
    by (auto simp: bindR_def storeColumn_Inr split: sum.splits)
  from Cons.IH [OF r] obtain vs where
    "contextValues es ctxt = Inr vs" "length vs = length es"
    "l' = foldl (\<lambda>t w. t[fst w := snd w]) (l[fst e := v]) (zip (map fst es) vs)"
    "h' = foldl (\<lambda>t w. t[fst w := snd w]) (h[fst e := v]) (zip (map fst es) vs)"
    by blast
  with v show ?case
    by (intro exI [of _ "v # vs"]) (simp add: bindR_def)
qed

lemma setExprsBoth_values:
  "setExprsBoth es ex (l, h) st = Inr ((l', h'), st') \<Longrightarrow>
   \<exists>vs. evalInOrder ex (map snd es) st = Inr (vs, st') \<and> length vs = length es
       \<and> l' = foldl (\<lambda>t w. t[fst w := snd w]) l (zip (map fst es) vs)
       \<and> h' = foldl (\<lambda>t w. t[fst w := snd w]) h (zip (map fst es) vs)"
proof (induction es arbitrary: l h st)
  case Nil
  then show ?case by simp
next
  case (Cons e es)
  from Cons.prems obtain v st1 where
    v: "ex (snd e) st = Inr (v, st1)"
    and r: "setExprsBoth es ex (l[fst e := v], h[fst e := v]) st1 = Inr ((l', h'), st')"
    by (auto simp: bindR_def storeColumn_Inr split: sum.splits)
  from Cons.IH [OF r] obtain vs where
    "evalInOrder ex (map snd es) st1 = Inr (vs, st')" "length vs = length es"
    "l' = foldl (\<lambda>t w. t[fst w := snd w]) (l[fst e := v]) (zip (map fst es) vs)"
    "h' = foldl (\<lambda>t w. t[fst w := snd w]) (h[fst e := v]) (zip (map fst es) vs)"
    by blast
  with v show ?case
    by (intro exI [of _ "v # vs"]) (simp add: bindR_def)
qed

lemma pointTuple_values:
  assumes "pointTuple ex arity superInfo st = Inr (tuple, st1)"
  shows "\<exists>tvals evals.
           contextValues (tupleFirst superInfo) (snd st) = Inr tvals
         \<and> evalInOrder ex (map snd (exprFirst superInfo)) st = Inr (evals, st1)
         \<and> (\<forall>c<arity. tuple ! c = (case fixedValue superInfo tvals evals c of
                                     Some v \<Rightarrow> v | None \<Rightarrow> first superInfo ! c))"
proof -
  from assms obtain t1 where
    len: "length (first superInfo) = arity"
    and a: "setTupleElements (tupleFirst superInfo) (snd st) (first superInfo) = Inr t1"
    and b: "setExprs (exprFirst superInfo) ex t1 st = Inr (tuple, st1)"
    by (auto simp: pointTuple_def TUPLE_COPY_FROM_def bindR_def split: sum.splits if_splits)
  from setTupleElements_values [OF a] obtain tvals where
    tv: "contextValues (tupleFirst superInfo) (snd st) = Inr tvals"
    and t1: "t1 = foldl (\<lambda>t w. t[fst w := snd w]) (first superInfo)
                    (zip (map fst (tupleFirst superInfo)) tvals)"
    by blast
  from setExprs_values [OF b] obtain evals where
    ev: "evalInOrder ex (map snd (exprFirst superInfo)) st = Inr (evals, st1)"
    and t: "tuple = foldl (\<lambda>t w. t[fst w := snd w]) t1
                    (zip (map fst (exprFirst superInfo)) evals)"
    by blast
  from t1 t have "tuple = foldl (\<lambda>t w. t[fst w := snd w]) (first superInfo)
                    (zip (map fst (tupleFirst superInfo)) tvals
                     @ zip (map fst (exprFirst superInfo)) evals)"
    by simp
  with len have "\<forall>c<arity. tuple ! c = (case fixedValue superInfo tvals evals c of
                                     Some v \<Rightarrow> v | None \<Rightarrow> first superInfo ! c)"
    by (simp add: writes_nth fixedValue_def del: foldl_append rev_append)
  with tv ev show ?thesis by blast
qed

lemma partialBounds_values:
  assumes "partialBounds ex arity superInfo st = Inr ((lo, hi), st1)"
  shows "\<exists>tvals evals.
           contextValues (tupleFirst superInfo) (snd st) = Inr tvals
         \<and> evalInOrder ex (map snd (exprFirst superInfo)) st = Inr (evals, st1)
         \<and> (\<forall>c<arity. case fixedValue superInfo tvals evals c of
                         Some v \<Rightarrow> lo ! c = v \<and> hi ! c = v
                       | None \<Rightarrow> lo ! c = first superInfo ! c \<and> hi ! c = second superInfo ! c)"
proof -
  from assms obtain l1 h1 where
    len: "length (first superInfo) = arity" "length (second superInfo) = arity"
    and a: "setTupleElementsBoth (tupleFirst superInfo) (snd st) (first superInfo, second superInfo)
              = Inr (l1, h1)"
    and b: "setExprsBoth (exprFirst superInfo) ex (l1, h1) st = Inr ((lo, hi), st1)"
    by (auto simp: partialBounds_def TUPLE_COPY_FROM_def bindR_def split: sum.splits if_splits)
  from setTupleElementsBoth_values [OF a] obtain tvals where
    tv: "contextValues (tupleFirst superInfo) (snd st) = Inr tvals"
    and l1: "l1 = foldl (\<lambda>t w. t[fst w := snd w]) (first superInfo)
                    (zip (map fst (tupleFirst superInfo)) tvals)"
    and h1: "h1 = foldl (\<lambda>t w. t[fst w := snd w]) (second superInfo)
                    (zip (map fst (tupleFirst superInfo)) tvals)"
    by blast
  from setExprsBoth_values [OF b] obtain evals where
    ev: "evalInOrder ex (map snd (exprFirst superInfo)) st = Inr (evals, st1)"
    and lo: "lo = foldl (\<lambda>t w. t[fst w := snd w]) l1 (zip (map fst (exprFirst superInfo)) evals)"
    and hi: "hi = foldl (\<lambda>t w. t[fst w := snd w]) h1 (zip (map fst (exprFirst superInfo)) evals)"
    by blast
  from l1 lo have lo': "lo = foldl (\<lambda>t w. t[fst w := snd w]) (first superInfo)
                    (zip (map fst (tupleFirst superInfo)) tvals
                     @ zip (map fst (exprFirst superInfo)) evals)"
    by simp
  from h1 hi have hi': "hi = foldl (\<lambda>t w. t[fst w := snd w]) (second superInfo)
                    (zip (map fst (tupleFirst superInfo)) tvals
                     @ zip (map fst (exprFirst superInfo)) evals)"
    by simp
  from len have "\<forall>c<arity. case fixedValue superInfo tvals evals c of
                         Some v \<Rightarrow> lo ! c = v \<and> hi ! c = v
                       | None \<Rightarrow> lo ! c = first superInfo ! c \<and> hi ! c = second superInfo ! c"
    unfolding lo' hi'
    by (simp add: writes_nth fixedValue_def split: option.splits del: foldl_append rev_append)
  with tv ev show ?thesis by blast
qed

lemma sint_MAX_RAM_SIGNED: "sint MAX_RAM_SIGNED = 2 ^ 63 - 1"
  by (simp add: MAX_RAM_SIGNED_def)

lemma sampleContext_fields:
  "views sampleContext = [(0, 0), (4, 0), (5, 0)]"
  "data sampleContext = (\<lambda>tupleId. None)"
  by (simp_all add: sampleContext_def)

lemma sample_view_r3:
  "getView (bindTuple tupleId t sampleContext) (Suc 0) = Inr (4, 0)"
  "viewTuples sampleEngine (4, 0) = Inr [[1, 2, 3], [1, 4, 5], [2, 2, 2]]"
  by (simp_all add: getView_def viewTuples_def getRelationHandle_def bindR_def bindTuple_def
        sampleContext_fields sampleEngine_fields)

lemma countRead_sample: "countRead isTemp relationName sampleEngine = sampleEngine"
  by (simp add: countRead_def sampleEngine_fields)

lemma readTupleElement_bound:
  "readTupleElement (bindTuple tupleId t ctxt) tupleId element
     = (if element < length t then Inr (t ! element) else Inl UndefinedBehaviour)"
  by (simp add: readTupleElement_def bindTuple_def)

lemma list3_eq:
  assumes "length xs = 3" "xs ! 0 = a" "xs ! 1 = b" "xs ! 2 = c"
  shows "xs = [a, b, c]"
proof (rule nth_equalityI)
  show "length xs = length [a, b, c]" using assms by simp
next
  fix i assume "i < length xs"
  with assms have "i = 0 \<or> i = 1 \<or> i = 2" by auto
  with assms show "xs ! i = [a, b, c] ! i" by auto
qed

text \<open>
  C4. A total \<open>ExistenceCheck\<close> whose point tuple is built returns
  \<open>view.contains(tuple)\<close> for that tuple. The tuple has the arity of the relation; a column
  that the search fixes holds the value fixed for it (the element of the context that
  \<open>tupleFirst\<close> names, or the value of the expression of \<open>exprFirst\<close>, the expressions being
  evaluated in order and the last entry for a column deciding); every other column holds
  the template \<open>superInfo.first\<close>. A partial one whose bounds are built returns
  \<open>view.contains(lo, hi)\<close>, where \<open>lo\<close> and \<open>hi\<close> have the arity of the relation, both
  hold the fixed value in every column the search fixes (so they agree there, as they do
  wherever the two templates agree), and hold the templates \<open>superInfo.first\<close> and
  \<open>superInfo.second\<close> in every other column.
\<close>

theorem existence_check:
  "(\<forall>tuple st1 view tuples.
      pointTuple (execute n h) arity superInfo (countRead isTemp relationName eng, ctxt)
        = Inr (tuple, st1)
      \<longrightarrow> getView (snd st1) viewPos = Inr view
      \<longrightarrow> viewTuples (fst st1) view = Inr tuples
      \<longrightarrow> execute (Suc n) h (ExistenceCheck arity viewPos isTemp relationName True superInfo)
            (eng, ctxt)
            = Inr (fromBool (view_contains h tuples (snd view) tuple), st1)
        \<and> length tuple = arity
        \<and> (\<forall>i. i \<notin> fixedColumns superInfo \<longrightarrow> tuple ! i = first superInfo ! i)
        \<and> (\<exists>tvals evals.
              contextValues (tupleFirst superInfo) ctxt = Inr tvals
            \<and> evalInOrder (execute n h) (map snd (exprFirst superInfo))
                (countRead isTemp relationName eng, ctxt) = Inr (evals, st1)
            \<and> (\<forall>c<arity. tuple ! c = (case fixedValue superInfo tvals evals c of
                                        Some v \<Rightarrow> v | None \<Rightarrow> first superInfo ! c))))
   \<and> (\<forall>lo hi st1 view tuples.
      partialBounds (execute n h) arity superInfo (countRead isTemp relationName eng, ctxt)
        = Inr ((lo, hi), st1)
      \<longrightarrow> getView (snd st1) viewPos = Inr view
      \<longrightarrow> viewTuples (fst st1) view = Inr tuples
      \<longrightarrow> execute (Suc n) h (ExistenceCheck arity viewPos isTemp relationName False superInfo)
            (eng, ctxt)
            = Inr (fromBool (view_contains_bounds h tuples (snd view) lo hi), st1)
        \<and> length lo = arity \<and> length hi = arity
        \<and> (\<forall>i. i \<in> fixedColumns superInfo \<longrightarrow> lo ! i = hi ! i)
        \<and> (\<forall>i. i \<notin> fixedColumns superInfo \<longrightarrow>
              lo ! i = first superInfo ! i \<and> hi ! i = second superInfo ! i)
        \<and> (\<forall>i. first superInfo ! i = second superInfo ! i \<longrightarrow> lo ! i = hi ! i)
        \<and> (\<exists>tvals evals.
              contextValues (tupleFirst superInfo) ctxt = Inr tvals
            \<and> evalInOrder (execute n h) (map snd (exprFirst superInfo))
                (countRead isTemp relationName eng, ctxt) = Inr (evals, st1)
            \<and> (\<forall>c<arity. case fixedValue superInfo tvals evals c of
                            Some v \<Rightarrow> lo ! c = v \<and> hi ! c = v
                          | None \<Rightarrow> lo ! c = first superInfo ! c
                                    \<and> hi ! c = second superInfo ! c)))"
proof (intro conjI allI impI)
  fix tuple st1 view tuples
  assume p: "pointTuple (execute n h) arity superInfo (countRead isTemp relationName eng, ctxt)
        = Inr (tuple, st1)"
    and v: "getView (snd st1) viewPos = Inr view" "viewTuples (fst st1) view = Inr tuples"
  from p v
  show "execute (Suc n) h (ExistenceCheck arity viewPos isTemp relationName True superInfo)
            (eng, ctxt)
            = Inr (fromBool (view_contains h tuples (snd view) tuple), st1)"
    by (simp add: evalExistenceCheck_def bindR_def)
  from pointTuple_columns [OF p] show "length tuple = arity" by simp
  from pointTuple_values [OF p]
  show "\<exists>tvals evals.
              contextValues (tupleFirst superInfo) ctxt = Inr tvals
            \<and> evalInOrder (execute n h) (map snd (exprFirst superInfo))
                (countRead isTemp relationName eng, ctxt) = Inr (evals, st1)
            \<and> (\<forall>c<arity. tuple ! c = (case fixedValue superInfo tvals evals c of
                                        Some v \<Rightarrow> v | None \<Rightarrow> first superInfo ! c))"
    by simp
  fix i assume "i \<notin> fixedColumns superInfo"
  with pointTuple_columns [OF p] show "tuple ! i = first superInfo ! i" by simp
next
  fix lo hi st1 view tuples
  assume p: "partialBounds (execute n h) arity superInfo (countRead isTemp relationName eng, ctxt)
        = Inr ((lo, hi), st1)"
    and v: "getView (snd st1) viewPos = Inr view" "viewTuples (fst st1) view = Inr tuples"
  note cols = partialBounds_columns [OF p]
  from p v
  show "execute (Suc n) h (ExistenceCheck arity viewPos isTemp relationName False superInfo)
            (eng, ctxt)
            = Inr (fromBool (view_contains_bounds h tuples (snd view) lo hi), st1)"
    by (simp add: evalExistenceCheck_def bindR_def)
  from cols show "length lo = arity" "length hi = arity" by simp_all
  from partialBounds_values [OF p]
  show "\<exists>tvals evals.
              contextValues (tupleFirst superInfo) ctxt = Inr tvals
            \<and> evalInOrder (execute n h) (map snd (exprFirst superInfo))
                (countRead isTemp relationName eng, ctxt) = Inr (evals, st1)
            \<and> (\<forall>c<arity. case fixedValue superInfo tvals evals c of
                            Some v \<Rightarrow> lo ! c = v \<and> hi ! c = v
                          | None \<Rightarrow> lo ! c = first superInfo ! c
                                    \<and> hi ! c = second superInfo ! c)"
    by simp
  { fix i assume "i \<in> fixedColumns superInfo"
    with cols show "lo ! i = hi ! i" by simp }
  { fix i assume "i \<notin> fixedColumns superInfo"
    with cols show "lo ! i = first superInfo ! i" "hi ! i = second superInfo ! i" by simp_all }
  { fix i assume "first superInfo ! i = second superInfo ! i"
    with cols show "lo ! i = hi ! i" by (cases "i \<in> fixedColumns superInfo") simp_all }
qed

text \<open>
  The relation \<open>{(1,2,3), (1,4,5), (2,2,2)}\<close>, searched with the current tuple of tuple id
  0 in the context. With the first column fixed to element 0 of that tuple: there is a
  tuple \<open>(1,_,_)\<close> and there is none \<open>(3,_,_)\<close>. With the first two columns fixed to its
  elements 0 and 1 and the third to the expression \<open>5\<close>: \<open>(1,4,5)\<close> is a member and
  \<open>(2,4,5)\<close> is not.
\<close>

theorem existence_check_witness:
  "execute (Suc 1) sampleHost
     (ExistenceCheck 3 1 False ''r3'' False
        (SuperInstruction [0, MIN_RAM_SIGNED, MIN_RAM_SIGNED] [0, MAX_RAM_SIGNED, MAX_RAM_SIGNED]
           [(0, 0, 0)] [] [] []))
     (sampleEngine, bindTuple 0 [1, 4] sampleContext)
     = Inr (1, sampleEngine, bindTuple 0 [1, 4] sampleContext)
   \<and> execute (Suc 1) sampleHost
     (ExistenceCheck 3 1 False ''r3'' False
        (SuperInstruction [0, MIN_RAM_SIGNED, MIN_RAM_SIGNED] [0, MAX_RAM_SIGNED, MAX_RAM_SIGNED]
           [(0, 0, 0)] [] [] []))
     (sampleEngine, bindTuple 0 [3, 4] sampleContext)
     = Inr (0, sampleEngine, bindTuple 0 [3, 4] sampleContext)
   \<and> execute (Suc 1) sampleHost
     (ExistenceCheck 3 1 False ''r3'' True
        (SuperInstruction [0, 0, 0] [0, 0, 0] [(0, 0, 0), (1, 0, 1)] [] [(2, NumericConstant 5)] []))
     (sampleEngine, bindTuple 0 [1, 4] sampleContext)
     = Inr (1, sampleEngine, bindTuple 0 [1, 4] sampleContext)
   \<and> execute (Suc 1) sampleHost
     (ExistenceCheck 3 1 False ''r3'' True
        (SuperInstruction [0, 0, 0] [0, 0, 0] [(0, 0, 0), (1, 0, 1)] [] [(2, NumericConstant 5)] []))
     (sampleEngine, bindTuple 0 [2, 4] sampleContext)
     = Inr (0, sampleEngine, bindTuple 0 [2, 4] sampleContext)"
proof -
  let ?c1 = "bindTuple 0 [1, 4] sampleContext"
  let ?c2 = "bindTuple 0 [2, 4] sampleContext"
  let ?c3 = "bindTuple 0 [3, 4] sampleContext"
  let ?range = "SuperInstruction [0, MIN_RAM_SIGNED, MIN_RAM_SIGNED]
                [0, MAX_RAM_SIGNED, MAX_RAM_SIGNED] [(0, 0, 0)] [] [] []"
  let ?point = "SuperInstruction [0, 0, 0] [0, 0, 0] [(0, 0, 0), (1, 0, 1)] []
                [(2, NumericConstant 5)] []"
  let ?r3 = "[[1, 2, 3], [1, 4, 5], [2, 2, 2]] :: Tuple list"
  have b1: "partialBounds (execute 1 sampleHost) 3 ?range (countRead False ''r3'' sampleEngine, ?c1)
              = Inr (([1, MIN_RAM_SIGNED, MIN_RAM_SIGNED], [1, MAX_RAM_SIGNED, MAX_RAM_SIGNED]),
                     sampleEngine, ?c1)"
    by (simp add: partialBounds_def TUPLE_COPY_FROM_def storeColumn_def bindR_def countRead_sample
          readTupleElement_bound)
  have b3: "partialBounds (execute 1 sampleHost) 3 ?range (countRead False ''r3'' sampleEngine, ?c3)
              = Inr (([3, MIN_RAM_SIGNED, MIN_RAM_SIGNED], [3, MAX_RAM_SIGNED, MAX_RAM_SIGNED]),
                     sampleEngine, ?c3)"
    by (simp add: partialBounds_def TUPLE_COPY_FROM_def storeColumn_def bindR_def countRead_sample
          readTupleElement_bound)
  have p1: "pointTuple (execute 1 sampleHost) 3 ?point (countRead False ''r3'' sampleEngine, ?c1)
              = Inr ([1, 4, 5], sampleEngine, ?c1)"
    by (simp add: pointTuple_def TUPLE_COPY_FROM_def storeColumn_def bindR_def countRead_sample
          readTupleElement_bound)
  have p2: "pointTuple (execute 1 sampleHost) 3 ?point (countRead False ''r3'' sampleEngine, ?c2)
              = Inr ([2, 4, 5], sampleEngine, ?c2)"
    by (simp add: pointTuple_def TUPLE_COPY_FROM_def storeColumn_def bindR_def countRead_sample
          readTupleElement_bound)
  have v: "getView (snd (sampleEngine, bindTuple 0 t sampleContext)) 1 = Inr (4, 0)"
    "viewTuples (fst (sampleEngine, bindTuple 0 t sampleContext)) (4, 0) = Inr ?r3" for t
    by (simp_all add: sample_view_r3)
  have c1: "view_contains_bounds sampleHost ?r3 (snd (4 :: nat, 0 :: nat))
              [1, MIN_RAM_SIGNED, MIN_RAM_SIGNED] [1, MAX_RAM_SIGNED, MAX_RAM_SIGNED]"
    by (simp add: sampleHost_def withinBounds_def signedLessEq_def sint_MIN_RAM_SIGNED
          sint_MAX_RAM_SIGNED)
  have c3: "\<not> view_contains_bounds sampleHost ?r3 (snd (4 :: nat, 0 :: nat))
              [3, MIN_RAM_SIGNED, MIN_RAM_SIGNED] [3, MAX_RAM_SIGNED, MAX_RAM_SIGNED]"
    by (simp add: sampleHost_def withinBounds_def signedLessEq_def sint_MIN_RAM_SIGNED
          sint_MAX_RAM_SIGNED)
  have cp: "view_contains sampleHost ?r3 (snd (4 :: nat, 0 :: nat)) [1, 4, 5]"
    "\<not> view_contains sampleHost ?r3 (snd (4 :: nat, 0 :: nat)) [2, 4, 5]"
    by (simp_all add: sampleHost_def)
  from existence_check [of 1 sampleHost 3 ?range False "''r3''" sampleEngine ?c1 1,
         THEN conjunct2, rule_format, OF b1 v, THEN conjunct1]
       existence_check [of 1 sampleHost 3 ?range False "''r3''" sampleEngine ?c3 1,
         THEN conjunct2, rule_format, OF b3 v, THEN conjunct1]
       existence_check [of 1 sampleHost 3 ?point False "''r3''" sampleEngine ?c1 1,
         THEN conjunct1, rule_format, OF p1 v, THEN conjunct1]
       existence_check [of 1 sampleHost 3 ?point False "''r3''" sampleEngine ?c2 1,
         THEN conjunct1, rule_format, OF p2 v, THEN conjunct1]
       c1 c3 cp
  show ?thesis
    by (simp add: fromBool_def)
qed

text \<open>
  C5. For a \<open>ProvenanceExistenceCheck\<close> of arity at least 2 whose bounds are built: in
  the data columns (all but the last two) the bounds \<open>low\<close> and \<open>high\<close> of the range are
  those of the partial search. Both hold the fixed value in every column the search fixes
  (the element of the context that \<open>tupleFirst\<close> names, or the value of the expression of
  \<open>exprFirst\<close>), and the templates \<open>superInfo.first\<close> and \<open>superInfo.second\<close> elsewhere. In
  the last two columns \<open>low\<close> holds \<open>MIN_RAM_SIGNED\<close> and \<open>high\<close> holds
  \<open>MAX_RAM_SIGNED\<close>. When the range of the view between them is empty the check returns
  false; otherwise it returns whether the last column of the first tuple of the range is
  at most (signed) the value of the child expression.
\<close>

theorem provenance_existence_check:
  assumes "partialBounds (execute n h) arity superInfo (eng, ctxt) = Inr ((lo, hi), st1)"
    and "2 \<le> arity"
    and "getView (snd st1) viewPos = Inr view"
    and "viewTuples (fst st1) view = Inr tuples"
  shows "\<exists>low high.
           length low = arity \<and> length high = arity
         \<and> (\<forall>i<arity - 2. low ! i = lo ! i \<and> high ! i = hi ! i)
         \<and> (\<forall>i<arity - 2. i \<in> fixedColumns superInfo \<longrightarrow> low ! i = high ! i)
         \<and> (\<forall>i<arity - 2. i \<notin> fixedColumns superInfo \<longrightarrow>
               low ! i = first superInfo ! i \<and> high ! i = second superInfo ! i)
         \<and> (\<exists>tvals evals.
               contextValues (tupleFirst superInfo) ctxt = Inr tvals
             \<and> evalInOrder (execute n h) (map snd (exprFirst superInfo)) (eng, ctxt)
                 = Inr (evals, st1)
             \<and> (\<forall>i<arity - 2. case fixedValue superInfo tvals evals i of
                                 Some v \<Rightarrow> low ! i = v \<and> high ! i = v
                               | None \<Rightarrow> low ! i = first superInfo ! i
                                         \<and> high ! i = second superInfo ! i))
         \<and> low ! (arity - 2) = MIN_RAM_SIGNED \<and> low ! (arity - 1) = MIN_RAM_SIGNED
         \<and> high ! (arity - 2) = MAX_RAM_SIGNED \<and> high ! (arity - 1) = MAX_RAM_SIGNED
         \<and> (view_range h tuples (snd view) low high = [] \<longrightarrow>
               execute (Suc n) h (ProvenanceExistenceCheck arity viewPos superInfo child) (eng, ctxt)
                 = Inr (0, st1))
         \<and> (\<forall>t ts threshold st2.
               view_range h tuples (snd view) low high = t # ts
               \<longrightarrow> length t = arity
               \<longrightarrow> execute n h child st1 = Inr (threshold, st2)
               \<longrightarrow> execute (Suc n) h (ProvenanceExistenceCheck arity viewPos superInfo child) (eng, ctxt)
                     = Inr (fromBool (sint (t ! (arity - 1)) \<le> sint threshold), st2))"
proof -
  note cols = partialBounds_columns [OF assms(1)]
  let ?low = "lo[arity - 2 := MIN_RAM_SIGNED, arity - 1 := MIN_RAM_SIGNED]"
  let ?high = "hi[arity - 2 := MAX_RAM_SIGNED, arity - 1 := MAX_RAM_SIGNED]"
  from cols assms(2)
  have pb: "provenanceBounds arity (lo, hi) = Inr (?low, ?high)"
    by (simp add: provenanceBounds_def storeColumn_def bindR_def)
  have ex: "evalProvenanceExistenceCheck h (execute n h) arity viewPos superInfo child (eng, ctxt)
          = (case view_range h tuples (snd view) ?low ?high of
               [] \<Rightarrow> Inr (fromBool False, st1)
             | firstTuple # others \<Rightarrow>
                 bindR (execute n h child st1) (\<lambda>(threshold, st2).
                 if arity - 1 < length firstTuple
                 then Inr (fromBool (signedLessEq (firstTuple ! (arity - 1)) threshold), st2)
                 else Inl UndefinedBehaviour))"
    using assms pb by (simp add: evalProvenanceExistenceCheck_def bindR_def)
  have len: "length ?low = arity" "length ?high = arity"
    using cols by simp_all
  have data: "\<forall>i<arity - 2. ?low ! i = lo ! i \<and> ?high ! i = hi ! i"
    by simp
  from partialBounds_values [OF assms(1)] obtain tvals evals where
    tv: "contextValues (tupleFirst superInfo) ctxt = Inr tvals"
    and ev: "evalInOrder (execute n h) (map snd (exprFirst superInfo)) (eng, ctxt) = Inr (evals, st1)"
    and fx: "\<forall>c<arity. case fixedValue superInfo tvals evals c of
                         Some v \<Rightarrow> lo ! c = v \<and> hi ! c = v
                       | None \<Rightarrow> lo ! c = first superInfo ! c \<and> hi ! c = second superInfo ! c"
    by auto
  have "\<forall>i<arity - 2. case fixedValue superInfo tvals evals i of
                                 Some v \<Rightarrow> ?low ! i = v \<and> ?high ! i = v
                               | None \<Rightarrow> ?low ! i = first superInfo ! i
                                         \<and> ?high ! i = second superInfo ! i"
  proof (intro allI impI)
    fix i assume i: "i < arity - 2"
    then have ne: "i \<noteq> arity - 2" "i \<noteq> arity - 1"
      by simp_all
    from fx i have "case fixedValue superInfo tvals evals i of
                      Some v \<Rightarrow> lo ! i = v \<and> hi ! i = v
                    | None \<Rightarrow> lo ! i = first superInfo ! i \<and> hi ! i = second superInfo ! i"
      by simp
    with ne show "case fixedValue superInfo tvals evals i of
                    Some v \<Rightarrow> ?low ! i = v \<and> ?high ! i = v
                  | None \<Rightarrow> ?low ! i = first superInfo ! i \<and> ?high ! i = second superInfo ! i"
      by (simp split: option.splits)
  qed
  with tv ev have fixedvals: "\<exists>tvals evals.
               contextValues (tupleFirst superInfo) ctxt = Inr tvals
             \<and> evalInOrder (execute n h) (map snd (exprFirst superInfo)) (eng, ctxt)
                 = Inr (evals, st1)
             \<and> (\<forall>i<arity - 2. case fixedValue superInfo tvals evals i of
                                 Some v \<Rightarrow> ?low ! i = v \<and> ?high ! i = v
                               | None \<Rightarrow> ?low ! i = first superInfo ! i
                                         \<and> ?high ! i = second superInfo ! i)"
    by blast
  have last: "?low ! (arity - 2) = MIN_RAM_SIGNED" "?low ! (arity - 1) = MIN_RAM_SIGNED"
    "?high ! (arity - 2) = MAX_RAM_SIGNED" "?high ! (arity - 1) = MAX_RAM_SIGNED"
    using cols assms(2) by (simp_all add: nth_list_update)
  have empty: "view_range h tuples (snd view) ?low ?high = [] \<longrightarrow>
               execute (Suc n) h (ProvenanceExistenceCheck arity viewPos superInfo child) (eng, ctxt)
                 = Inr (0, st1)"
    by (simp add: ex fromBool_def)
  have found: "\<forall>t ts threshold st2.
               view_range h tuples (snd view) ?low ?high = t # ts
               \<longrightarrow> length t = arity
               \<longrightarrow> execute n h child st1 = Inr (threshold, st2)
               \<longrightarrow> execute (Suc n) h (ProvenanceExistenceCheck arity viewPos superInfo child) (eng, ctxt)
                     = Inr (fromBool (sint (t ! (arity - 1)) \<le> sint threshold), st2)"
    using assms(2) by (simp add: ex bindR_def signedLessEq_def)
  have fixed: "\<forall>i<arity - 2. i \<in> fixedColumns superInfo \<longrightarrow> ?low ! i = ?high ! i"
    using cols by simp
  have free: "\<forall>i<arity - 2. i \<notin> fixedColumns superInfo \<longrightarrow>
               ?low ! i = first superInfo ! i \<and> ?high ! i = second superInfo ! i"
    using cols by simp
  show ?thesis
    apply (rule exI [of _ ?low])
    apply (rule exI [of _ ?high])
    using len data fixed free fixedvals last empty found
    apply (intro conjI)
    apply assumption+
    done
qed

text \<open>
  The relation \<open>{(8,1,1), (8,2,5)}\<close>, searched with the first column fixed to element 0 of
  the current tuple of tuple id 0. For the tuple \<open>(8)\<close> the first tuple of the range has
  level 1, which is within the threshold 3 and not within the threshold 0; for the tuple
  \<open>(9)\<close> the range is empty.
\<close>

theorem provenance_existence_check_witness:
  "execute (Suc 1) sampleHost
     (ProvenanceExistenceCheck 3 2
        (SuperInstruction [0, 0, 0] [0, 0, 0] [(0, 0, 0)] [] [] [])
        (NumericConstant 3))
     (sampleEngine, bindTuple 0 [8] sampleContext)
     = Inr (1, sampleEngine, bindTuple 0 [8] sampleContext)
   \<and> execute (Suc 1) sampleHost
     (ProvenanceExistenceCheck 3 2
        (SuperInstruction [0, 0, 0] [0, 0, 0] [(0, 0, 0)] [] [] [])
        (NumericConstant 0))
     (sampleEngine, bindTuple 0 [8] sampleContext)
     = Inr (0, sampleEngine, bindTuple 0 [8] sampleContext)
   \<and> execute (Suc 1) sampleHost
     (ProvenanceExistenceCheck 3 2
        (SuperInstruction [0, 0, 0] [0, 0, 0] [(0, 0, 0)] [] [] [])
        (NumericConstant 3))
     (sampleEngine, bindTuple 0 [9] sampleContext)
     = Inr (0, sampleEngine, bindTuple 0 [9] sampleContext)"
proof -
  let ?info = "SuperInstruction [0, 0, 0] [0, 0, 0] [(0, 0, 0)] [] [] [] :: Node SuperInstruction"
  let ?p = "[[8, 1, 1], [8, 2, 5]] :: Tuple list"
  have a: "(2 :: nat) \<le> 3"
    by simp
  have b: "partialBounds (execute 1 sampleHost) 3 ?info (sampleEngine, bindTuple 0 [k] sampleContext)
             = Inr (([k, 0, 0], [k, 0, 0]), sampleEngine, bindTuple 0 [k] sampleContext)" for k
    by (simp add: partialBounds_def TUPLE_COPY_FROM_def storeColumn_def bindR_def
          readTupleElement_bound)
  have v: "getView (snd (sampleEngine, bindTuple 0 [k] sampleContext)) 2 = Inr (5, 0)"
    "viewTuples (fst (sampleEngine, bindTuple 0 [k] sampleContext)) (5, 0) = Inr ?p" for k
    by (simp_all add: getView_def viewTuples_def getRelationHandle_def bindR_def bindTuple_def
          sampleContext_fields sampleEngine_fields)
  have r8: "view_range sampleHost ?p (snd (5 :: nat, 0 :: nat))
             [8, MIN_RAM_SIGNED, MIN_RAM_SIGNED] [8, MAX_RAM_SIGNED, MAX_RAM_SIGNED] = ?p"
    and r9: "view_range sampleHost ?p (snd (5 :: nat, 0 :: nat))
             [9, MIN_RAM_SIGNED, MIN_RAM_SIGNED] [9, MAX_RAM_SIGNED, MAX_RAM_SIGNED] = []"
    by (simp_all add: sampleHost_def withinBounds_def signedLessEq_def sint_MIN_RAM_SIGNED
          sint_MAX_RAM_SIGNED)
  have t3: "execute 1 sampleHost (NumericConstant 3) (sampleEngine, c) = Inr (3, sampleEngine, c)"
    and t0: "execute 1 sampleHost (NumericConstant 0) (sampleEngine, c) = Inr (0, sampleEngine, c)"
    for c
    by simp_all
  { fix child k
    let ?s = "(sampleEngine, bindTuple 0 [k] sampleContext)"
    from provenance_existence_check [OF b a v, of k child]
    obtain low high tvals evals where
      m: "low ! (3 - 2) = MIN_RAM_SIGNED" "low ! (3 - 1) = MIN_RAM_SIGNED"
      "high ! (3 - 2) = MAX_RAM_SIGNED" "high ! (3 - 1) = MAX_RAM_SIGNED"
      and tv: "contextValues (tupleFirst ?info) (bindTuple 0 [k] sampleContext) = Inr tvals"
      and ev: "evalInOrder (execute 1 sampleHost) (map snd (exprFirst ?info)) ?s = Inr (evals, ?s)"
      and lh: "length low = 3" "length high = 3"
      and fx: "\<forall>i<3 - 2. case fixedValue ?info tvals evals i of
                 Some v \<Rightarrow> low ! i = v \<and> high ! i = v
               | None \<Rightarrow> low ! i = first ?info ! i \<and> high ! i = second ?info ! i"
      and e: "view_range sampleHost ?p (snd (5 :: nat, 0 :: nat)) low high = []
               \<longrightarrow> execute (Suc 1) sampleHost (ProvenanceExistenceCheck 3 2 ?info child) ?s
                     = Inr (0, ?s)"
      and f: "\<forall>t ts threshold st2.
               view_range sampleHost ?p (snd (5 :: nat, 0 :: nat)) low high = t # ts
               \<longrightarrow> length t = 3
               \<longrightarrow> execute 1 sampleHost child ?s = Inr (threshold, st2)
               \<longrightarrow> execute (Suc 1) sampleHost (ProvenanceExistenceCheck 3 2 ?info child) ?s
                     = Inr (fromBool (sint (t ! (3 - 1)) \<le> sint threshold), st2)"
      by (elim exE conjE) (rule that; assumption)
    from tv have tvals: "tvals = [k]"
      by (simp add: bindR_def readTupleElement_bound)
    from ev have "evals = []"
      by simp
    with tvals fx have "low ! 0 = k" "high ! 0 = k"
      by (simp_all add: fixedValue_def)
    with lh m have "low = [k, MIN_RAM_SIGNED, MIN_RAM_SIGNED]"
      "high = [k, MAX_RAM_SIGNED, MAX_RAM_SIGNED]"
      by (simp_all add: list3_eq)
    with e f
    have "(view_range sampleHost ?p (snd (5 :: nat, 0 :: nat))
             [k, MIN_RAM_SIGNED, MIN_RAM_SIGNED] [k, MAX_RAM_SIGNED, MAX_RAM_SIGNED] = []
           \<longrightarrow> execute (Suc 1) sampleHost (ProvenanceExistenceCheck 3 2 ?info child) ?s
                 = Inr (0, ?s))
        \<and> (\<forall>t ts threshold st2.
             view_range sampleHost ?p (snd (5 :: nat, 0 :: nat))
               [k, MIN_RAM_SIGNED, MIN_RAM_SIGNED] [k, MAX_RAM_SIGNED, MAX_RAM_SIGNED] = t # ts
             \<longrightarrow> length t = 3
             \<longrightarrow> execute 1 sampleHost child ?s = Inr (threshold, st2)
             \<longrightarrow> execute (Suc 1) sampleHost (ProvenanceExistenceCheck 3 2 ?info child) ?s
                   = Inr (fromBool (sint (t ! (3 - 1)) \<le> sint threshold), st2))"
      by simp }
  note run = this
  from run [of 8 "NumericConstant 3", THEN conjunct2, rule_format, OF r8 _ t3]
       run [of 8 "NumericConstant 0", THEN conjunct2, rule_format, OF r8 _ t0]
       run [of 9 "NumericConstant 3", THEN conjunct1, rule_format, OF r9]
  show ?thesis
    by (simp add: fromBool_def)
qed

section \<open>Aggregation\<close>

lemma runNested_iff:
  "runNested aggregator \<longleftrightarrow>
     aggregator \<in> {IntrinsicAggregator AggCOUNT, IntrinsicAggregator AggSUM,
                    IntrinsicAggregator AggUSUM, IntrinsicAggregator AggFSUM}
     \<or> (\<exists>stateful. aggregator = UserDefinedAggregator stateful)"
proof (cases aggregator)
  case (IntrinsicAggregator f)
  then show ?thesis by (cases f) (simp_all add: runNested_def)
next
  case (UserDefinedAggregator stateful)
  then show ?thesis by (simp add: runNested_def)
qed

lemma combine_flag:
  "combine h shadow val acc eng = Inr (acc', eng') \<Longrightarrow> shouldRunNested acc' = shouldRunNested acc"
  by (auto simp: combine_def split: Aggregator.splits AggregateOp.splits option.splits if_splits)

text \<open>One pass of the loop over a candidate on which the filter returns.\<close>

lemma aggregateLoop_rejected:
  assumes "ex (getCondition shadow) (fst st, bindTuple (getTupleId shadow) tuple (snd st)) = Inr (c, st1)"
    and "\<not> toBool c"
  shows "aggregateLoop (tuple # ranges) h ex shadow acc st = aggregateLoop ranges h ex shadow acc st1"
  using assms by (simp add: bindR_def)

lemma aggregateLoop_accepted:
  assumes "ex (getCondition shadow) (fst st, bindTuple (getTupleId shadow) tuple (snd st)) = Inr (c, st1)"
    and "toBool c"
    and "aggregateLoop (tuple # ranges) h ex shadow acc st = Inr (acc', st')"
  shows "\<exists>acc2 st2. shouldRunNested acc2
           \<and> aggregateLoop ranges h ex shadow acc2 st2 = Inr (acc', st')"
proof (cases "getAggregator shadow = IntrinsicAggregator AggCOUNT")
  case True
  with assms show ?thesis
    by (intro exI [of _ "acc\<lparr>shouldRunNested := True, res := res acc + 1\<rparr>"] exI [of _ st1])
       (simp add: bindR_def)
next
  case False
  with assms obtain expression val st2 acc2 eng3 where
    "getExpr shadow = Some expression" "ex expression st1 = Inr (val, st2)"
    and c: "combine h shadow val (acc\<lparr>shouldRunNested := True\<rparr>) (fst st2) = Inr (acc2, eng3)"
    and r: "aggregateLoop ranges h ex shadow acc2 (eng3, snd st2) = Inr (acc', st')"
    by (auto simp: bindR_def split: option.splits sum.splits)
  from combine_flag [OF c] r show ?thesis
    by (intro exI [of _ acc2] exI [of _ "(eng3, snd st2)"]) simp
qed

lemma aggregateLoop_flag:
  "aggregateLoop ranges h ex shadow acc st = Inr (acc', st') \<Longrightarrow>
   shouldRunNested acc' \<longleftrightarrow>
     shouldRunNested acc
     \<or> (\<exists>pre tuple post a s v s'.
           ranges = pre @ tuple # post
         \<and> aggregateLoop pre h ex shadow acc st = Inr (a, s)
         \<and> ex (getCondition shadow) (fst s, bindTuple (getTupleId shadow) tuple (snd s)) = Inr (v, s')
         \<and> toBool v)"
proof (induction ranges arbitrary: acc st)
  case Nil
  then show ?case by simp
next
  case (Cons t rest)
  let ?passed = "\<lambda>ranges acc st. \<exists>pre tuple post a s v s'.
           ranges = pre @ tuple # post
         \<and> aggregateLoop pre h ex shadow acc st = Inr (a, s)
         \<and> ex (getCondition shadow) (fst s, bindTuple (getTupleId shadow) tuple (snd s)) = Inr (v, s')
         \<and> toBool v"
  from Cons.prems obtain c st1 where
    f: "ex (getCondition shadow) (fst st, bindTuple (getTupleId shadow) t (snd st)) = Inr (c, st1)"
    by (cases "ex (getCondition shadow) (fst st, bindTuple (getTupleId shadow) t (snd st))")
       (auto simp: bindR_def)
  show ?case
  proof (cases "toBool c")
    case False
    note rej = aggregateLoop_rejected [where ex = ex and shadow = shadow and st = st and tuple = t, OF f False]
    from Cons.prems rej have "aggregateLoop rest h ex shadow acc st1 = Inr (acc', st')"
      by simp
    from Cons.IH [OF this]
    have ih: "shouldRunNested acc' \<longleftrightarrow> shouldRunNested acc \<or> ?passed rest acc st1" .
    have "?passed (t # rest) acc st \<longleftrightarrow> ?passed rest acc st1"
    proof
      assume "?passed (t # rest) acc st"
      then obtain pre tuple post a s v s' where
        p: "t # rest = pre @ tuple # post"
        "aggregateLoop pre h ex shadow acc st = Inr (a, s)"
        "ex (getCondition shadow) (fst s, bindTuple (getTupleId shadow) tuple (snd s)) = Inr (v, s')"
        "toBool v"
        by blast
      show "?passed rest acc st1"
      proof (cases pre)
        case Nil
        with p f False show ?thesis by simp
      next
        case (Cons t' pre')
        with p have "t' = t" "rest = pre' @ tuple # post" by simp_all
        moreover from p Cons \<open>t' = t\<close> rej
        have "aggregateLoop pre' h ex shadow acc st1 = Inr (a, s)" by simp
        ultimately show ?thesis using p(3,4) by blast
      qed
    next
      assume "?passed rest acc st1"
      then obtain pre tuple post a s v s' where
        p: "rest = pre @ tuple # post"
        "aggregateLoop pre h ex shadow acc st1 = Inr (a, s)"
        "ex (getCondition shadow) (fst s, bindTuple (getTupleId shadow) tuple (snd s)) = Inr (v, s')"
        "toBool v"
        by blast
      from p(1) have "t # rest = (t # pre) @ tuple # post" by simp
      moreover from p(2) rej have "aggregateLoop (t # pre) h ex shadow acc st = Inr (a, s)"
        by simp
      ultimately show "?passed (t # rest) acc st" using p(3,4) by blast
    qed
    with ih show ?thesis by simp
  next
    case True
    from aggregateLoop_accepted [where ex = ex and shadow = shadow and st = st and tuple = t, OF f True Cons.prems] obtain acc2 st2 where
      a: "shouldRunNested acc2" "aggregateLoop rest h ex shadow acc2 st2 = Inr (acc', st')"
      by blast
    from Cons.IH [OF a(2)] a(1) have "shouldRunNested acc'" by simp
    moreover have "t # rest = [] @ t # rest" "aggregateLoop [] h ex shadow acc st = Inr (acc, st)"
      by simp_all
    with f True have "?passed (t # rest) acc st" by blast
    ultimately show ?thesis by simp
  qed
qed

text \<open>
  C3. For an evaluation of \<open>evalAggregate\<close> (reached from \<open>Aggregate\<close> over the scan of
  the relation and from \<open>IndexAggregate\<close> over the range of the view) whose initial value
  and loop return: \<open>shouldRunNested\<close> holds after the loop if and only if some candidate
  tuple passed the filter (the filter returned true on it, in the state the loop had
  reached) or the aggregator is \<open>COUNT\<close>, \<open>SUM\<close>, \<open>USUM\<close>, \<open>FSUM\<close> or user-defined. The
  nested operation is executed exactly when \<open>shouldRunNested\<close> holds, and it runs in the
  context in which the tuple id of the aggregate is bound to the 1-tuple of the result;
  otherwise the evaluation returns true in that context.
\<close>

theorem aggregate_nested:
  assumes "initValue h (execute n h) shadow st = Inr (init, st0)"
    and "aggregateLoop ranges h (execute n h) shadow
           \<lparr>res = init, shouldRunNested = runNested (getAggregator shadow),
            accumulateMean = (0, 0)\<rparr> st0 = Inr (acc, st1)"
  shows "(shouldRunNested acc \<longleftrightarrow>
            (\<exists>pre tuple post a s v s'.
                ranges = pre @ tuple # post
              \<and> aggregateLoop pre h (execute n h) shadow
                  \<lparr>res = init, shouldRunNested = runNested (getAggregator shadow),
                   accumulateMean = (0, 0)\<rparr> st0 = Inr (a, s)
              \<and> execute n h (getCondition shadow)
                  (fst s, bindTuple (getTupleId shadow) tuple (snd s)) = Inr (v, s')
              \<and> toBool v)
          \<or> getAggregator shadow
               \<in> {IntrinsicAggregator AggCOUNT, IntrinsicAggregator AggSUM,
                  IntrinsicAggregator AggUSUM, IntrinsicAggregator AggFSUM}
          \<or> (\<exists>stateful. getAggregator shadow = UserDefinedAggregator stateful))
       \<and> evalAggregate h (execute n h) shadow ranges st
           = (if shouldRunNested acc
              then execute n h (getNestedOperation shadow)
                     (fst st1, bindTuple (getTupleId shadow) [finishMean h shadow acc] (snd st1))
              else Inr (1, fst st1, bindTuple (getTupleId shadow) [finishMean h shadow acc] (snd st1)))
       \<and> data (bindTuple (getTupleId shadow) [finishMean h shadow acc] (snd st1)) (getTupleId shadow)
           = Some [finishMean h shadow acc]
       \<and> (\<forall>name c. getRelationHandle (fst st) relation = Inr (Relation name c)
             \<longrightarrow> ranges = rel_scan h c
             \<longrightarrow> execute (Suc n) h (Aggregate relation shadow) st
                   = evalAggregate h (execute n h) shadow ranges st)
       \<and> (\<forall>arity viewId superInfo stb lh view tuples.
             CAL_SEARCH_BOUND (execute n h) arity superInfo stb = Inr (lh, st)
             \<longrightarrow> getView (snd st) viewId = Inr view
             \<longrightarrow> viewTuples (fst st) view = Inr tuples
             \<longrightarrow> ranges = view_range h tuples (snd view) (fst lh) (snd lh)
             \<longrightarrow> execute (Suc n) h (IndexAggregate arity viewId superInfo shadow) stb
                   = evalAggregate h (execute n h) shadow ranges st)"
proof -
  have flag: "shouldRunNested acc \<longleftrightarrow>
            (\<exists>pre tuple post a s v s'.
                ranges = pre @ tuple # post
              \<and> aggregateLoop pre h (execute n h) shadow
                  \<lparr>res = init, shouldRunNested = runNested (getAggregator shadow),
                   accumulateMean = (0, 0)\<rparr> st0 = Inr (a, s)
              \<and> execute n h (getCondition shadow)
                  (fst s, bindTuple (getTupleId shadow) tuple (snd s)) = Inr (v, s')
              \<and> toBool v)
          \<or> getAggregator shadow
               \<in> {IntrinsicAggregator AggCOUNT, IntrinsicAggregator AggSUM,
                  IntrinsicAggregator AggUSUM, IntrinsicAggregator AggFSUM}
          \<or> (\<exists>stateful. getAggregator shadow = UserDefinedAggregator stateful)"
    using aggregateLoop_flag [OF assms(2)] runNested_iff [of "getAggregator shadow"]
    by auto
  have run: "evalAggregate h (execute n h) shadow ranges st
           = (if shouldRunNested acc
              then execute n h (getNestedOperation shadow)
                     (fst st1, bindTuple (getTupleId shadow) [finishMean h shadow acc] (snd st1))
              else Inr (1, fst st1, bindTuple (getTupleId shadow) [finishMean h shadow acc] (snd st1)))"
    using assms by (simp add: evalAggregate_def bindR_def fromBool_def)
  have bound: "data (bindTuple (getTupleId shadow) [finishMean h shadow acc] (snd st1)) (getTupleId shadow)
           = Some [finishMean h shadow acc]"
    by (simp add: bindTuple_def)
  have scan: "\<forall>name c. getRelationHandle (fst st) relation = Inr (Relation name c)
             \<longrightarrow> ranges = rel_scan h c
             \<longrightarrow> execute (Suc n) h (Aggregate relation shadow) st
                   = evalAggregate h (execute n h) shadow ranges st"
    by (simp add: execAggregate_def bindR_def)
  have index: "\<forall>arity viewId superInfo stb lh view tuples.
             CAL_SEARCH_BOUND (execute n h) arity superInfo stb = Inr (lh, st)
             \<longrightarrow> getView (snd st) viewId = Inr view
             \<longrightarrow> viewTuples (fst st) view = Inr tuples
             \<longrightarrow> ranges = view_range h tuples (snd view) (fst lh) (snd lh)
             \<longrightarrow> execute (Suc n) h (IndexAggregate arity viewId superInfo shadow) stb
                   = evalAggregate h (execute n h) shadow ranges st"
    by (simp add: evalIndexAggregate_def bindR_def)
  from flag run bound scan index show ?thesis
    by (intro conjI)
qed

lemma sampleHost_scan: "rel_scan sampleHost c = c"
  and sampleHost_insert: "rel_insert sampleHost t c = (if t \<in> set c then c else c @ [t])"
  by (simp_all add: sampleHost_def)

text \<open>The minimum of the second column over \<open>{(1,10), (1,7), (2,3)}\<close>: for the first
  column 1 it is 7 and the nested operation inserts \<open>(7)\<close>; for the first column 5 no tuple
  passes and the nested operation does not run.\<close>

theorem aggregate_nested_witness:
  "execute (Suc 3) sampleHost
     (Aggregate 0
        (AggregateShadow (IntrinsicAggregator AggMIN) 0
           (Constraint EQ (TupleElement 0 0) (NumericConstant 1)) (Some (TupleElement 0 1))
           (Insert 1 3 (SuperInstruction [0] [0] [(0, 0, 0)] [] [] [])) None None))
     (sampleEngine, sampleContext)
   = Inr (1, sampleEngine\<lparr>relations := (relations sampleEngine)[3 := Relation ''m'' [[7]]]\<rparr>,
          bindTuple 0 [7] sampleContext)
   \<and> execute (Suc 3) sampleHost
     (Aggregate 0
        (AggregateShadow (IntrinsicAggregator AggMIN) 0
           (Constraint EQ (TupleElement 0 0) (NumericConstant 5)) (Some (TupleElement 0 1))
           (Insert 1 3 (SuperInstruction [0] [0] [(0, 0, 0)] [] [] [])) None None))
     (sampleEngine, sampleContext)
   = Inr (1, sampleEngine, bindTuple 0 [MAX_RAM_SIGNED] sampleContext)"
proof -
  let ?s = "(sampleEngine, sampleContext)"
  let ?nested = "Insert 1 3 (SuperInstruction [0] [0] [(0, 0, 0)] [] [] [])"
  let ?one = "AggregateShadow (IntrinsicAggregator AggMIN) 0
           (Constraint EQ (TupleElement 0 0) (NumericConstant 1)) (Some (TupleElement 0 1))
           ?nested None None"
  let ?five = "AggregateShadow (IntrinsicAggregator AggMIN) 0
           (Constraint EQ (TupleElement 0 0) (NumericConstant 5)) (Some (TupleElement 0 1))
           ?nested None None"
  let ?r = "[[1, 10], [1, 7], [2, 3]] :: Tuple list"
  have h: "getRelationHandle (fst ?s) 0 = Inr (Relation ''r'' ?r)" "?r = rel_scan sampleHost ?r"
    by (simp_all add: getRelationHandle_def sampleEngine_fields sampleHost_scan)
  have i1: "initValue sampleHost (execute 3 sampleHost) ?one ?s = Inr (MAX_RAM_SIGNED, ?s)"
    and i5: "initValue sampleHost (execute 3 sampleHost) ?five ?s = Inr (MAX_RAM_SIGNED, ?s)"
    by (simp_all add: initValue_def)
  have l1: "aggregateLoop ?r sampleHost (execute 3 sampleHost) ?one
              \<lparr>res = MAX_RAM_SIGNED, shouldRunNested = runNested (getAggregator ?one),
               accumulateMean = (0, 0)\<rparr> ?s
            = Inr (\<lparr>res = 7, shouldRunNested = True, accumulateMean = (0, 0)\<rparr>,
                   sampleEngine, bindTuple 0 [2, 3] sampleContext)"
    by (simp add: execute_at_numeral evalConstraint_def readTupleElement_def bindTuple_def bindR_def
          fromBool_def toBool_def combine_def std_min_def signedLess_def runNested_def
          sint_MAX_RAM_SIGNED)
  have l5: "aggregateLoop ?r sampleHost (execute 3 sampleHost) ?five
              \<lparr>res = MAX_RAM_SIGNED, shouldRunNested = runNested (getAggregator ?five),
               accumulateMean = (0, 0)\<rparr> ?s
            = Inr (\<lparr>res = MAX_RAM_SIGNED, shouldRunNested = False, accumulateMean = (0, 0)\<rparr>,
                   sampleEngine, bindTuple 0 [2, 3] sampleContext)"
    by (simp add: execute_at_numeral evalConstraint_def readTupleElement_def bindTuple_def bindR_def
          fromBool_def toBool_def runNested_def)
  have n: "execute 3 sampleHost ?nested (sampleEngine, bindTuple 0 [7] (bindTuple 0 [2, 3] sampleContext))
             = Inr (1, sampleEngine\<lparr>relations := (relations sampleEngine)[3 := Relation ''m'' [[7]]]\<rparr>,
                    bindTuple 0 [7] sampleContext)"
    by (simp add: execute_at_numeral execInsert_def evalInsert_def getRelationHandle_def
          TUPLE_COPY_FROM_def readTupleElement_def storeColumn_def bindTuple_def bindR_def
          fromBool_def sampleEngine_fields sampleHost_insert)
  have b: "bindTuple 0 [MAX_RAM_SIGNED] (bindTuple 0 [2, 3] sampleContext)
             = bindTuple 0 [MAX_RAM_SIGNED] sampleContext"
    by (simp add: bindTuple_def)
  note one = aggregate_nested [OF i1 l1, of 0]
  note five = aggregate_nested [OF i5 l5, of 0]
  from one h n
  have "execute (Suc 3) sampleHost (Aggregate 0 ?one) ?s
          = Inr (1, sampleEngine\<lparr>relations := (relations sampleEngine)[3 := Relation ''m'' [[7]]]\<rparr>,
                 bindTuple 0 [7] sampleContext)"
    by (simp add: finishMean_def)
  moreover from five h b
  have "execute (Suc 3) sampleHost (Aggregate 0 ?five) ?s
          = Inr (1, sampleEngine, bindTuple 0 [MAX_RAM_SIGNED] sampleContext)"
    by (simp add: finishMean_def)
  ultimately show ?thesis by simp
qed

end
